theory Spec2Isabelle
  imports Complex_Main
begin

section \<open>Python values used by the MPIN validator\<close>

text \<open>
  Strings are lists of 8-bit characters, each read as one code point below 256, so that
  \<open>length\<close> is Python's \<open>len\<close>. The exceptions that the modelled code can raise are
  values of \<open>py_error\<close>; a function that may raise returns \<open>py_error + 'a\<close>.
\<close>

datatype py_error = ValueError | IndexError | UnboundLocalError

datatype reason =
  COMMONLY_USED | DEMOGRAPHIC_DOB_SELF | DEMOGRAPHIC_DOB_SPOUSE | DEMOGRAPHIC_ANNIVERSARY

datatype strength = WEAK | STRONG

text \<open>A value passed as \<open>pin\<close>: Python is untyped, the format check tests for \<open>str\<close>.\<close>

datatype pyval = PyNone | PyStr string | PyInt int

text \<open>The decimal digits, the characters that the regular expression class \<open>\d\<close> accepts
  among the code points below 256.\<close>

definition is_decimal :: "char \<Rightarrow> bool" where
  "is_decimal c = (c \<in> set ''0123456789'')"

text \<open>\<open>str.isdigit\<close> on one character: the decimal digits and the characters of numeric type
  Digit, which below 256 are the superscripts two, three and one.\<close>

definition isdigit_char :: "char \<Rightarrow> bool" where
  "isdigit_char c = (is_decimal c \<or> c = CHR 0xB2 \<or> c = CHR 0xB3 \<or> c = CHR 0xB9)"

text \<open>\<open>s.isdigit()\<close>: every character is a digit and there is at least one.\<close>

definition isdigit :: "string \<Rightarrow> bool" where
  "isdigit s = (s \<noteq> [] \<and> list_all isdigit_char s)"

definition digit_val :: "char \<Rightarrow> nat" where
  "digit_val c = of_char c - 48"

definition digit_char :: "nat \<Rightarrow> char" where
  "digit_char n = ''0123456789'' ! n"

text \<open>\<open>f"{n}"\<close> for a natural number.\<close>

fun str_nat :: "nat \<Rightarrow> string" where
  "str_nat n = (if n < 10 then [digit_char n] else str_nat (n div 10) @ [digit_char (n mod 10)])"

declare str_nat.simps [simp del]

text \<open>\<open>f"{n:02d}"\<close> for a natural number.\<close>

definition pad2 :: "nat \<Rightarrow> string" where
  "pad2 n = (if n < 10 then CHR ''0'' # str_nat n else str_nat n)"

text \<open>\<open>s[i]\<close> for \<open>i \<ge> 0\<close>: \<open>None\<close> stands for the IndexError.\<close>

definition py_getitem :: "string \<Rightarrow> nat \<Rightarrow> string option" where
  "py_getitem s i = (if i < length s then Some [s ! i] else None)"

text \<open>\<open>sub in s\<close> on strings.\<close>

fun py_contains :: "string \<Rightarrow> string \<Rightarrow> bool" where
  "py_contains sub [] = (sub = [])"
| "py_contains sub (c # s) = (take (length sub) (c # s) = sub \<or> py_contains sub s)"

section \<open>\<open>datetime.strptime(date_str, "%Y-%m-%d")\<close>\<close>

text \<open>
  The library compiles the format to the regular expression
  \<open>(\d\d\d\d)-(1[0-2]|0[1-9]|[1-9])-(3[0-1]|[1-2]\d|0[1-9]|[1-9]| [1-9])\<close>, matches it at the
  start of the input, refuses input with unconverted data after the match and then builds a
  date, which refuses year 0 and a day the month does not have. Each group is the list of
  its alternatives that match, in the order the matcher tries them.
\<close>

definition re_month :: "string \<Rightarrow> (nat \<times> string) list" where
  "re_month s =
     (case s of a # b # r \<Rightarrow>
        (if a = CHR ''1'' \<and> b \<in> set ''012'' then [(10 + digit_val b, r)] else []) | _ \<Rightarrow> [])
   @ (case s of a # b # r \<Rightarrow>
        (if a = CHR ''0'' \<and> b \<in> set ''123456789'' then [(digit_val b, r)] else []) | _ \<Rightarrow> [])
   @ (case s of a # r \<Rightarrow>
        (if a \<in> set ''123456789'' then [(digit_val a, r)] else []) | _ \<Rightarrow> [])"

definition re_day :: "string \<Rightarrow> (nat \<times> string) list" where
  "re_day s =
     (case s of a # b # r \<Rightarrow>
        (if a = CHR ''3'' \<and> b \<in> set ''01'' then [(30 + digit_val b, r)] else []) | _ \<Rightarrow> [])
   @ (case s of a # b # r \<Rightarrow>
        (if a \<in> set ''12'' \<and> is_decimal b then [(10 * digit_val a + digit_val b, r)] else [])
        | _ \<Rightarrow> [])
   @ (case s of a # b # r \<Rightarrow>
        (if a = CHR ''0'' \<and> b \<in> set ''123456789'' then [(digit_val b, r)] else []) | _ \<Rightarrow> [])
   @ (case s of a # r \<Rightarrow>
        (if a \<in> set ''123456789'' then [(digit_val a, r)] else []) | _ \<Rightarrow> [])
   @ (case s of a # b # r \<Rightarrow>
        (if a = CHR '' '' \<and> b \<in> set ''123456789'' then [(digit_val b, r)] else []) | _ \<Rightarrow> [])"

text \<open>A literal \<open>-\<close> of the format.\<close>

definition re_dash :: "string \<Rightarrow> string list" where
  "re_dash s = (case s of c # r \<Rightarrow> (if c = CHR ''-'' then [r] else []) | [] \<Rightarrow> [])"

text \<open>The first match of the whole expression: year, month, day and the unconverted rest.\<close>

definition re_match :: "string \<Rightarrow> (nat \<times> nat \<times> nat \<times> string) option" where
  "re_match s =
     (case s of
        y1 # y2 # y3 # y4 # r0 \<Rightarrow>
          (if is_decimal y1 \<and> is_decimal y2 \<and> is_decimal y3 \<and> is_decimal y4 then
             (case concat (map (\<lambda>r1. concat (map (\<lambda>(m, r2). concat (map (\<lambda>r3.
                     map (\<lambda>(d, r4). (m, d, r4)) (re_day r3)) (re_dash r2))) (re_month r1)))
                   (re_dash r0)) of
                [] \<Rightarrow> None
              | (m, d, r4) # _ \<Rightarrow>
                  Some (1000 * digit_val y1 + 100 * digit_val y2 + 10 * digit_val y3
                          + digit_val y4, m, d, r4))
           else None)
      | _ \<Rightarrow> None)"

definition is_leap :: "nat \<Rightarrow> bool" where
  "is_leap y = (if y mod 400 = 0 then True else if y mod 100 = 0 then False else y mod 4 = 0)"

definition days_in_month :: "nat \<Rightarrow> nat \<Rightarrow> nat" where
  "days_in_month y m =
     (if m = 2 then (if is_leap y then 29 else 28)
      else if m \<in> {4, 6, 9, 11} then 30 else 31)"

definition strptime :: "string \<Rightarrow> py_error + (nat \<times> nat \<times> nat)" where
  "strptime s =
     (case re_match s of
        None \<Rightarrow> Inl ValueError
      | Some (y, m, d, rest) \<Rightarrow>
          (if rest \<noteq> [] then Inl ValueError
           else if 1 \<le> y \<and> 1 \<le> m \<and> m \<le> 12 \<and> 1 \<le> d \<and> d \<le> days_in_month y m
           then Inr (y, m, d)
           else Inl ValueError))"

section \<open>\<open>DateComponentExtractor\<close>\<close>

text \<open>
  The component dictionary is an association list in the insertion order of the dictionary
  literal, which \<open>extract_components_by_length\<close> iterates over. The entries of the literal
  that index a string are \<open>None\<close> where the index is out of range; the literal then raises
  IndexError.
\<close>

type_synonym component_dict = "(string \<times> string) list"

definition dict_literal :: "(string \<times> string option) list \<Rightarrow> py_error + component_dict" where
  "dict_literal es =
     (if list_all (\<lambda>(k, v). v \<noteq> None) es then Inr (map (\<lambda>(k, v). (k, the v)) es)
      else Inl IndexError)"

definition component_entries ::
  "string \<Rightarrow> nat \<Rightarrow> nat \<Rightarrow> nat \<Rightarrow> (string \<times> string option) list" where
  "component_entries date_str year month day =
     [(''D'', Some (pad2 day)),
      (''D_nz'', Some (str_nat day)),
      (''M'', Some (pad2 month)),
      (''M_nz'', Some (str_nat month)),
      (''YY'', Some (pad2 (year mod 100))),
      (''YYYY'', Some (str_nat year)),
      (''YY_1'', Some (pad2 (year div 100))),
      (''YY_2'', Some (pad2 (year mod 100))),
      (''D_rev'', Some (rev (pad2 day))),
      (''M_rev'', Some (rev (pad2 month))),
      (''YY_rev'', Some (rev (pad2 (year mod 100)))),
      (''YYYY_rev'', Some (rev (str_nat year))),
      (''D_1'', py_getitem (pad2 day) 0),
      (''D_2'', py_getitem (pad2 day) 1),
      (''M_1'', py_getitem (pad2 month) 0),
      (''M_2'', py_getitem (pad2 month) 1),
      (''Y_1'', py_getitem (str_nat year) 0),
      (''Y_2'', py_getitem (str_nat year) 1),
      (''Y_3'', py_getitem (str_nat year) 2),
      (''Y_4'', py_getitem (str_nat year) 3),
      (''FULL_REV'', Some (rev (str_nat year @ pad2 month @ pad2 day))),
      (''DD'', Some (pad2 day @ pad2 day)),
      (''MD'', Some (pad2 month @ pad2 day)),
      (''DM'', Some (pad2 day @ pad2 month)),
      (''YMD'', Some (pad2 (year mod 100) @ pad2 month @ pad2 day)),
      (''MDY'', Some (pad2 month @ pad2 day @ pad2 (year mod 100))),
      (''YYDD'', Some (pad2 (year mod 100) @ pad2 day)),
      (''DDAY'', Some (pad2 day @ pad2 (year mod 100))),
      (''RAW_DATE'', Some date_str)]"

definition extract_date_components :: "string \<Rightarrow> py_error + component_dict" where
  "extract_date_components date_str =
     (if date_str = [] then Inr []
      else case strptime date_str of
        Inl e \<Rightarrow> Inr []
      | Inr (year, month, day) \<Rightarrow> dict_literal (component_entries date_str year month day))"

text \<open>\<open>components.get(key, "")\<close>.\<close>

definition comp_get :: "component_dict \<Rightarrow> string \<Rightarrow> string" where
  "comp_get comps k = (case map_of comps k of None \<Rightarrow> [] | Some v \<Rightarrow> v)"

definition templates4 :: "string list list" where
  "templates4 =
     [[''D'', ''M''], [''M'', ''D''], [''YY'', ''M''], [''M'', ''YY''], [''YY'', ''D''],
      [''D'', ''YY''], [''YY_1'', ''YY_2''], [''D'', ''D''], [''M'', ''M''],
      [''D_rev'', ''M_rev''], [''YY_rev'', ''D_rev''], [''YY'']]"

definition templates6 :: "string list list" where
  "templates6 =
     [[''D'', ''M'', ''YY''], [''M'', ''D'', ''YY''], [''YY'', ''M'', ''D''],
      [''D'', ''YY'', ''M''], [''M'', ''YY'', ''D''], [''YY'', ''D'', ''M''],
      [''YYYY'', ''D''], [''YYYY'', ''M''], [''D'', ''D'', ''D''], [''M'', ''M'', ''M''],
      [''D'', ''M'', ''D''], [''M'', ''D'', ''M''], [''YMD''], [''MDY''], [''DD'', ''YY''],
      [''YY'', ''DD''], [''FULL_REV'']]"

text \<open>One template: the lookup of a missing component raises KeyError, which the loop
  swallows; \<open>None\<close> stands for that.\<close>

definition join_template :: "component_dict \<Rightarrow> string list \<Rightarrow> string option" where
  "join_template comps template =
     (if list_all (\<lambda>c. map_of comps c \<noteq> None) template
      then Some (concat (map (\<lambda>c. the (map_of comps c)) template)) else None)"

definition template_patterns :: "component_dict \<Rightarrow> int \<Rightarrow> string list list \<Rightarrow> string list" where
  "template_patterns comps pin_len templates =
     concat (map (\<lambda>template.
       (case join_template comps template of
          None \<Rightarrow> []
        | Some pattern \<Rightarrow>
            (if int (length pattern) = pin_len
             then pattern # (if ''FULL_REV'' \<notin> set template then [rev pattern] else [])
             else []))) templates)"

text \<open>The repetition patterns appended after the template loop.\<close>

definition repetition_patterns :: "component_dict \<Rightarrow> int \<Rightarrow> string list" where
  "repetition_patterns comps pin_len =
     (let day = comp_get comps ''D''; month = comp_get comps ''M'' in
      if pin_len = 4 then (if length day = 2 then [day @ day] else [])
      else if pin_len = 6 then
        (if length day = 2 then [day @ day @ day] else [])
        @ (if length month = 2 \<and> length day = 2
           then [month @ day @ month, day @ month @ day] else [])
      else [])"

text \<open>\<open>extract_date_patterns\<close> returns \<open>list(set(patterns))\<close>, a list in no specified
  order: the model returns the set. For a length other than 4 and 6 the variable
  \<open>pattern_templates\<close> is unbound when the loop reads it.\<close>

definition extract_date_patterns :: "string \<Rightarrow> int \<Rightarrow> py_error + string set" where
  "extract_date_patterns date_str pin_len =
     (case extract_date_components date_str of
        Inl e \<Rightarrow> Inl e
      | Inr comps \<Rightarrow>
          (if comps = [] then Inr {}
           else if pin_len = 4 then
             Inr (set (template_patterns comps pin_len templates4
                       @ repetition_patterns comps pin_len))
           else if pin_len = 6 then
             Inr (set (template_patterns comps pin_len templates6
                       @ repetition_patterns comps pin_len))
           else Inl UnboundLocalError))"

definition extract_components_by_length :: "component_dict \<Rightarrow> nat \<Rightarrow> string list" where
  "extract_components_by_length comps len =
     map snd (filter (\<lambda>(k, v). length v = len) comps)
     @ concat (map (\<lambda>(k, v). map (\<lambda>i. take len (drop i v)) [0 ..< length v - len + 1])
                 (filter (\<lambda>(k, v). length v > len) comps))"

section \<open>\<open>PatternGenerator\<close>\<close>

text \<open>
  The wall clock is a parameter: \<open>clk k\<close> is the value of the \<open>k\<close>-th call of \<open>time.time()\<close>,
  read as a real number, and the number of calls made so far is threaded through the
  functions that read the clock.
\<close>

record pattern_generator =
  gen_pin_length :: int
  max_combinations :: int
  max_execution_time :: real

text \<open>One entry of \<open>source_components\<close>: the key and the two fields of its value. The
  dictionary is the list of its entries in insertion order; the loops over \<open>source_keys\<close>
  run over the entries.\<close>

record source_data =
  source :: string
  components :: component_dict
  reason :: reason

text \<open>The \<open>demographics\<close> dictionary as an association list, read through \<open>map_of\<close>.\<close>

type_synonym demographics = "(string \<times> string) list"

text \<open>\<open>pin_reasons\<close>: the dictionary from a PIN to the list of its reasons.\<close>

type_synonym pin_reasons = "string \<rightharpoonup> reason list"

definition pr_get :: "pin_reasons \<Rightarrow> string \<Rightarrow> reason list" where
  "pr_get pr pin = (case pr pin of None \<Rightarrow> [] | Some l \<Rightarrow> l)"

text \<open>\<open>if pin not in pin_reasons: pin_reasons[pin] = []\<close>, then one \<open>append\<close> per reason.\<close>

definition append_reasons :: "string \<Rightarrow> reason list \<Rightarrow> pin_reasons \<Rightarrow> pin_reasons" where
  "append_reasons pin rs pr = pr(pin \<mapsto> pr_get pr pin @ rs)"

text \<open>The same under the test \<open>len(pin) == self.pin_length\<close>.\<close>

definition append_if_len ::
  "pattern_generator \<Rightarrow> string \<Rightarrow> reason list \<Rightarrow> pin_reasons \<Rightarrow> pin_reasons" where
  "append_if_len g pin rs pr =
     (if int (length pin) = gen_pin_length g then append_reasons pin rs pr else pr)"

text \<open>The loop of \<open>_generate_pins_from_components\<close> that appends a reason only when it is
  not yet in the list.\<close>

definition add_unique_reasons :: "string \<Rightarrow> reason list \<Rightarrow> pin_reasons \<Rightarrow> pin_reasons" where
  "add_unique_reasons pin rs pr =
     pr(pin \<mapsto> fold (\<lambda>r l. if r \<in> set l then l else l @ [r]) rs (pr_get pr pin))"

text \<open>The body of the loop over the product after the budget check: the PIN is stored only
  if it has the configured length.\<close>

definition store_pin ::
  "pattern_generator \<Rightarrow> reason list \<Rightarrow> string list \<Rightarrow> pin_reasons \<Rightarrow> pin_reasons" where
  "store_pin g reasons parts pr =
     (if int (length (concat parts)) = gen_pin_length g
      then add_unique_reasons (concat parts) reasons pr else pr)"

text \<open>The loop over \<open>product(*component_sets)\<close>.\<close>

fun pins_loop ::
  "pattern_generator \<Rightarrow> (nat \<Rightarrow> real) \<Rightarrow> real \<Rightarrow> reason list \<Rightarrow> string list list \<Rightarrow>
   pin_reasons \<Rightarrow> int \<Rightarrow> nat \<Rightarrow> pin_reasons \<times> nat" where
  "pins_loop g clk start_time reasons [] pr combo_count t = (pr, t)"
| "pins_loop g clk start_time reasons (parts # rest) pr combo_count t =
     (if clk t - start_time > max_execution_time g \<or> combo_count + 1 > max_combinations g
      then (pr, Suc t)
      else pins_loop g clk start_time reasons rest (store_pin g reasons parts pr)
             (combo_count + 1) (Suc t))"

definition generate_pins_from_components ::
  "pattern_generator \<Rightarrow> (nat \<Rightarrow> real) \<Rightarrow> real \<Rightarrow> string list list \<Rightarrow> reason list \<Rightarrow>
   pin_reasons \<Rightarrow> int \<Rightarrow> nat \<Rightarrow> pin_reasons \<times> nat" where
  "generate_pins_from_components g clk start_time component_sets reasons pr combo_count t =
     (if \<not> list_all (\<lambda>cs. cs \<noteq> []) component_sets then (pr, t)
      else pins_loop g clk start_time reasons
             (product_lists
                (if prod_list (map length component_sets) > 5000
                 then map (\<lambda>cs. take (min 20 (length cs)) cs) component_sets
                 else component_sets))
             pr combo_count t)"

text \<open>The loop over \<open>source_combinations\<close>. The counter \<open>combo_count\<close> is an integer
  argument: the callee's increments do not reach the caller.\<close>

fun n_digit_loop ::
  "pattern_generator \<Rightarrow> (nat \<Rightarrow> real) \<Rightarrow> real \<Rightarrow> nat list \<Rightarrow> int \<Rightarrow> source_data list list \<Rightarrow>
   pin_reasons \<Rightarrow> nat \<Rightarrow> pin_reasons \<times> nat" where
  "n_digit_loop g clk start_time part_lengths combo_count [] pr t = (pr, t)"
| "n_digit_loop g clk start_time part_lengths combo_count (source_combination # rest) pr t =
     (if clk t - start_time > max_execution_time g \<or> combo_count > max_combinations g
      then (pr, Suc t)
      else
        (case generate_pins_from_components g clk start_time
                (map (\<lambda>(src, part_length).
                        extract_components_by_length (components src) part_length)
                   (zip source_combination part_lengths))
                (map reason source_combination) pr combo_count (Suc t) of
           (pr', t') \<Rightarrow> n_digit_loop g clk start_time part_lengths combo_count rest pr' t'))"

definition generate_n_digit_combinations ::
  "pattern_generator \<Rightarrow> (nat \<Rightarrow> real) \<Rightarrow> real \<Rightarrow> source_data list \<Rightarrow> nat list \<Rightarrow>
   pin_reasons \<Rightarrow> int \<Rightarrow> nat \<Rightarrow> pin_reasons \<times> nat" where
  "generate_n_digit_combinations g clk start_time source_components part_lengths pr combo_count t =
     (if int (sum_list part_lengths) \<noteq> gen_pin_length g then (pr, t)
      else n_digit_loop g clk start_time part_lengths combo_count
             (product_lists (replicate (length part_lengths) source_components)) pr t)"

text \<open>The pairs \<open>(source1, source2)\<close> of the two nested loops over \<open>source_keys\<close> and
  \<open>source_keys[i+1:]\<close>.\<close>

fun source_pairs :: "'a list \<Rightarrow> ('a \<times> 'a) list" where
  "source_pairs [] = []"
| "source_pairs (x # xs) = map (Pair x) xs @ source_pairs xs"

definition has_key :: "component_dict \<Rightarrow> string \<Rightarrow> bool" where
  "has_key comps k = (map_of comps k \<noteq> None)"

text \<open>\<open>s[:n]\<close> for an integer \<open>n\<close>.\<close>

definition py_prefix :: "string \<Rightarrow> int \<Rightarrow> string" where
  "py_prefix s n = (if 0 \<le> n then take (nat n) s else take (length s - nat (- n)) s)"

subsection \<open>The hand-coded pattern generators\<close>

text \<open>\<open>components[key]\<close> after the test \<open>key in components\<close>.\<close>

definition day_repeat :: "nat \<Rightarrow> source_data \<Rightarrow> pin_reasons \<Rightarrow> pin_reasons" where
  "day_repeat n src pr =
     (if has_key (components src) ''D'' then
        (let day = comp_get (components src) ''D'' in
         if length day = 2 then append_reasons (concat (replicate n day)) [reason src] pr
         else pr)
      else pr)"

definition special4_pair ::
  "pattern_generator \<Rightarrow> source_data \<times> source_data \<Rightarrow> pin_reasons \<Rightarrow> pin_reasons" where
  "special4_pair g p pr =
     (let c1 = components (fst p); c2 = components (snd p);
          rs = [reason (fst p), reason (snd p)];
          pr1 = (if has_key c1 ''D'' \<and> has_key c2 ''D'' then
                   append_if_len g (comp_get c2 ''D'' @ comp_get c1 ''D'') rs
                     (append_if_len g (comp_get c1 ''D'' @ comp_get c2 ''D'') rs pr)
                 else pr);
          pr2 = (if has_key c1 ''M'' \<and> has_key c2 ''M'' then
                   append_if_len g (comp_get c2 ''M'' @ comp_get c1 ''M'') rs
                     (append_if_len g (comp_get c1 ''M'' @ comp_get c2 ''M'') rs pr1)
                 else pr1)
      in if has_key c1 ''YY'' \<and> has_key c2 ''YY'' then
           (let year1 = comp_get c1 ''YY''; year2 = comp_get c2 ''YY'';
                pr3 = append_if_len g (rev year1 @ take 2 year2) rs
                        (append_if_len g (year1 @ take 2 year2) rs pr2)
            in if reason (fst p) = DEMOGRAPHIC_DOB_SELF
                  \<and> py_contains ''2004'' (comp_get c1 ''RAW_DATE'')
               then append_if_len g ''9804'' rs
                      (append_if_len g ''0098'' [reason (fst p)] pr3)
               else pr3)
         else pr2)"

definition generate_special_patterns_4digit ::
  "pattern_generator \<Rightarrow> source_data list \<Rightarrow> pin_reasons \<Rightarrow> pin_reasons" where
  "generate_special_patterns_4digit g source_components pr =
     fold (special4_pair g) (source_pairs source_components)
       (fold (day_repeat 2) source_components pr)"

definition full_rev_prefix :: "pattern_generator \<Rightarrow> source_data \<Rightarrow> pin_reasons \<Rightarrow> pin_reasons" where
  "full_rev_prefix g src pr =
     (if has_key (components src) ''FULL_REV'' then
        (let full_rev = comp_get (components src) ''FULL_REV'' in
         if int (length full_rev) \<ge> gen_pin_length g
         then append_reasons (py_prefix full_rev (gen_pin_length g)) [reason src] pr
         else pr)
      else pr)"

definition special6_pair ::
  "pattern_generator \<Rightarrow> source_data \<times> source_data \<Rightarrow> pin_reasons \<Rightarrow> pin_reasons" where
  "special6_pair g p pr =
     (let c1 = components (fst p); c2 = components (snd p);
          rs = [reason (fst p), reason (snd p)];
          pr1 = (if has_key c1 ''M'' \<and> has_key c1 ''D'' \<and> has_key c2 ''M'' \<and> has_key c2 ''D''
                 then
                   (let md1 = comp_get c1 ''MD''; md2 = comp_get c2 ''MD'' in
                    if length md1 = 4 \<and> length md2 = 4
                    then append_if_len g (take 2 md1 @ md2) rs pr else pr)
                 else pr);
          pr2 = (if has_key c1 ''YY'' \<and> has_key c2 ''MD'' then
                   (let year = comp_get c1 ''YY''; md = comp_get c2 ''MD'' in
                    if length year = 2 \<and> length md = 4
                    then append_if_len g (year @ md) rs pr1 else pr1)
                 else pr1)
      in if has_key c1 ''D'' \<and> has_key c2 ''D'' then
           (let day1 = comp_get c1 ''D''; day2 = comp_get c2 ''D'' in
            if length day1 = 2 \<and> length day2 = 2
            then append_if_len g (day1 @ day2 @ day1) rs pr2 else pr2)
         else pr2)"

definition generate_special_patterns_6digit ::
  "pattern_generator \<Rightarrow> source_data list \<Rightarrow> pin_reasons \<Rightarrow> pin_reasons" where
  "generate_special_patterns_6digit g source_components pr =
     fold (special6_pair g) (source_pairs source_components)
       (fold (full_rev_prefix g) source_components
          (fold (day_repeat 3) source_components pr))"

text \<open>\<open>next((s for s in source_keys if source_components[s]["reason"] == r), None)\<close>.\<close>

definition find_source :: "source_data list \<Rightarrow> reason \<Rightarrow> source_data option" where
  "find_source source_components r = find (\<lambda>s. reason s = r) source_components"

text \<open>The four rules over the three sources. The values come from \<open>.get(key, "")\<close> and a
  rule applies when all its values are non-empty; nothing in a rule raises.\<close>

definition cross_rule1 ::
  "pattern_generator \<Rightarrow> source_data \<Rightarrow> source_data \<Rightarrow> pin_reasons \<Rightarrow> pin_reasons" where
  "cross_rule1 g spouse wedding pr =
     (let spouse_year = comp_get (components spouse) ''YY'';
          wedding_day = comp_get (components wedding) ''D'' in
      if spouse_year \<noteq> [] \<and> wedding_day \<noteq> [] then
        (let pin = rev spouse_year @ wedding_day;
             pin' = (if length pin = 4 \<and> gen_pin_length g = 6 then pin @ ''00'' else pin)
         in append_if_len g pin' [reason spouse, reason wedding] pr)
      else pr)"

definition cross_rule2 ::
  "pattern_generator \<Rightarrow> source_data \<Rightarrow> source_data \<Rightarrow> source_data \<Rightarrow> pin_reasons \<Rightarrow>
   pin_reasons" where
  "cross_rule2 g dob spouse wedding pr =
     (let dob_day = comp_get (components dob) ''D'';
          spouse_day = comp_get (components spouse) ''D'';
          wedding_day = comp_get (components wedding) ''D'' in
      if dob_day \<noteq> [] \<and> spouse_day \<noteq> [] \<and> wedding_day \<noteq> [] then
        append_if_len g (dob_day @ spouse_day @ take 2 wedding_day)
          [reason dob, reason spouse, reason wedding] pr
      else pr)"

definition cross_rule3 ::
  "pattern_generator \<Rightarrow> source_data \<Rightarrow> source_data \<Rightarrow> source_data \<Rightarrow> pin_reasons \<Rightarrow>
   pin_reasons" where
  "cross_rule3 g dob spouse wedding pr =
     (let dob_month = comp_get (components dob) ''M'';
          spouse_month = comp_get (components spouse) ''M'';
          wedding_month = comp_get (components wedding) ''M'' in
      if dob_month \<noteq> [] \<and> spouse_month \<noteq> [] \<and> wedding_month \<noteq> [] then
        append_if_len g (dob_month @ spouse_month @ wedding_month)
          [reason dob, reason spouse, reason wedding] pr
      else pr)"

definition cross_rule4 ::
  "pattern_generator \<Rightarrow> source_data \<Rightarrow> source_data \<Rightarrow> source_data \<Rightarrow> pin_reasons \<Rightarrow>
   pin_reasons" where
  "cross_rule4 g dob spouse wedding pr =
     (let wedding_year = comp_get (components wedding) ''YY'';
          dob_day = comp_get (components dob) ''D'';
          spouse_day = comp_get (components spouse) ''D'' in
      if wedding_year \<noteq> [] \<and> dob_day \<noteq> [] \<and> spouse_day \<noteq> [] then
        append_if_len g (wedding_year @ dob_day @ spouse_day)
          [reason dob, reason spouse, reason wedding] pr
      else pr)"

definition generate_cross_source_patterns ::
  "pattern_generator \<Rightarrow> source_data list \<Rightarrow> pin_reasons \<Rightarrow> pin_reasons" where
  "generate_cross_source_patterns g source_components pr =
     (if length source_components < 2 then pr
      else if length source_components \<ge> 3 then
        (case (find_source source_components DEMOGRAPHIC_DOB_SELF,
               find_source source_components DEMOGRAPHIC_DOB_SPOUSE,
               find_source source_components DEMOGRAPHIC_ANNIVERSARY) of
           (Some dob, Some spouse, Some wedding) \<Rightarrow>
             (if source dob \<noteq> [] \<and> source spouse \<noteq> [] \<and> source wedding \<noteq> [] then
                cross_rule4 g dob spouse wedding
                  (cross_rule3 g dob spouse wedding
                     (cross_rule2 g dob spouse wedding
                        (cross_rule1 g spouse wedding pr)))
              else pr)
         | _ \<Rightarrow> pr)
      else pr)"

definition day_repetition ::
  "pattern_generator \<Rightarrow> source_data \<Rightarrow> pin_reasons \<Rightarrow> pin_reasons" where
  "day_repetition g src pr =
     (if has_key (components src) ''D'' then
        (let day = comp_get (components src) ''D'' in
         if length day = 2 then
           (if gen_pin_length g = 4 then append_reasons (day @ day) [reason src] pr
            else if gen_pin_length g = 6 then
              (let pr1 = append_reasons (day @ day @ day) [reason src] pr in
               if has_key (components src) ''YY''
               then append_if_len g (day @ comp_get (components src) ''YY'' @ day)
                      [reason src] pr1
               else pr1)
            else pr)
         else pr)
      else pr)"

definition generate_day_repetition_patterns ::
  "pattern_generator \<Rightarrow> source_data list \<Rightarrow> pin_reasons \<Rightarrow> pin_reasons" where
  "generate_day_repetition_patterns g source_components pr =
     fold (day_repetition g) source_components pr"

definition special_case ::
  "pattern_generator \<Rightarrow> reason \<Rightarrow> string \<Rightarrow> string \<Rightarrow> source_data \<Rightarrow> pin_reasons \<Rightarrow>
   pin_reasons" where
  "special_case g r date pin src pr =
     (if reason src = r \<and> py_contains date (comp_get (components src) ''RAW_DATE'')
      then append_if_len g pin [reason src] pr else pr)"

definition check_special_cases ::
  "pattern_generator \<Rightarrow> source_data list \<Rightarrow> pin_reasons \<Rightarrow> pin_reasons" where
  "check_special_cases g source_components pr =
     fold (special_case g DEMOGRAPHIC_DOB_SELF ''2004-07-25'' ''402570'') source_components
       (fold (special_case g DEMOGRAPHIC_ANNIVERSARY ''1998-05-01'' ''100589'')
          source_components pr)"

subsection \<open>\<open>generate_all_combinations\<close>\<close>

definition source_reason_map :: "(string \<times> reason) list" where
  "source_reason_map =
     [(''dob'', DEMOGRAPHIC_DOB_SELF), (''spouse_dob'', DEMOGRAPHIC_DOB_SPOUSE),
      (''anniversary'', DEMOGRAPHIC_ANNIVERSARY)]"

text \<open>\<open>demographics.get(key)\<close>, with \<open>None\<close> and the empty string both read as the empty
  string: the code only tests the value for truth before it uses it.\<close>

definition demo_get :: "demographics \<Rightarrow> string \<Rightarrow> string" where
  "demo_get d k = (case map_of d k of None \<Rightarrow> [] | Some v \<Rightarrow> v)"

text \<open>The loop that fills \<open>source_components\<close>; the extraction of a source may raise.\<close>

fun collect_sources :: "demographics \<Rightarrow> (string \<times> reason) list \<Rightarrow> py_error + source_data list" where
  "collect_sources d [] = Inr []"
| "collect_sources d ((src, r) # rest) =
     (case (if demo_get d src \<noteq> [] then extract_date_components (demo_get d src) else Inr []) of
        Inl e \<Rightarrow> Inl e
      | Inr comps \<Rightarrow>
          (case collect_sources d rest of
             Inl e \<Rightarrow> Inl e
           | Inr scs \<Rightarrow>
               Inr (if comps \<noteq> []
                    then \<lparr>source = src, components = comps, reason = r\<rparr> # scs else scs)))"

definition generate_4 ::
  "pattern_generator \<Rightarrow> (nat \<Rightarrow> real) \<Rightarrow> real \<Rightarrow> source_data list \<Rightarrow> nat \<Rightarrow> pin_reasons \<times> nat" where
  "generate_4 g clk start_time scs t =
     (case generate_n_digit_combinations g clk start_time scs [2, 2] Map.empty 0 t of
        (pr, t') \<Rightarrow> (generate_special_patterns_4digit g scs pr, t'))"

definition generate_6 ::
  "pattern_generator \<Rightarrow> (nat \<Rightarrow> real) \<Rightarrow> real \<Rightarrow> source_data list \<Rightarrow> nat \<Rightarrow> pin_reasons \<times> nat" where
  "generate_6 g clk start_time scs t =
     (case generate_n_digit_combinations g clk start_time scs [2, 2, 2] Map.empty 0 t of
        (pr1, t1) \<Rightarrow>
     (case generate_n_digit_combinations g clk start_time scs [2, 4] pr1 0 t1 of
        (pr2, t2) \<Rightarrow>
     (case generate_n_digit_combinations g clk start_time scs [4, 2] pr2 0 t2 of
        (pr3, t3) \<Rightarrow>
          (check_special_cases g scs
             (generate_day_repetition_patterns g scs
                (generate_cross_source_patterns g scs
                   (generate_special_patterns_6digit g scs pr3))), t3))))"

text \<open>The result is the dictionary and the number of clock readings made when the call
  returns; the first reading is \<open>start_time\<close>.\<close>

definition generate_all_combinations ::
  "pattern_generator \<Rightarrow> (nat \<Rightarrow> real) \<Rightarrow> demographics \<Rightarrow> nat \<Rightarrow> py_error + (pin_reasons \<times> nat)" where
  "generate_all_combinations g clk d t =
     (case collect_sources d source_reason_map of
        Inl e \<Rightarrow> Inl e
      | Inr scs \<Rightarrow>
          (if scs = [] then Inr (Map.empty, Suc t)
           else if gen_pin_length g = 4 then Inr (generate_4 g clk (clk t) scs (Suc t))
           else if gen_pin_length g = 6 then Inr (generate_6 g clk (clk t) scs (Suc t))
           else Inr (Map.empty, Suc t)))"

section \<open>\<open>SpecialPatternDetector\<close>\<close>

definition check_direct_special_cases :: "string \<Rightarrow> demographics \<Rightarrow> reason list" where
  "check_direct_special_cases pin d =
     (if pin = ''402570'' \<and> map_of d ''dob'' = Some ''2004-07-25'' then [DEMOGRAPHIC_DOB_SELF]
      else if pin = ''100589'' \<and> map_of d ''anniversary'' = Some ''1998-05-01''
      then [DEMOGRAPHIC_ANNIVERSARY]
      else [])"

section \<open>\<open>MPINValidator\<close>\<close>

text \<open>
  The table of common PINs comes from the module \<open>pin_data\<close>, which is not part of the
  sources at hand: \<open>get_common_pins\<close> is a parameter of the constructor. The fields
  \<open>max_combinations\<close> and \<open>max_execution_time\<close> of the validator are only passed on to the
  generator and live there.
\<close>

record validator =
  pin_length :: int
  common_pins :: "string set"
  pattern_gen :: pattern_generator

definition init :: "(int \<Rightarrow> string set) \<Rightarrow> int \<Rightarrow> py_error + validator" where
  "init get_common_pins pin_len =
     (if pin_len \<notin> {4, 6} then Inl ValueError
      else Inr \<lparr>pin_length = pin_len, common_pins = get_common_pins pin_len,
                pattern_gen = \<lparr>gen_pin_length = pin_len, max_combinations = 500000,
                                max_execution_time = 3\<rparr>\<rparr>)"

definition validate_pin_format :: "validator \<Rightarrow> pyval \<Rightarrow> bool" where
  "validate_pin_format v pin =
     (case pin of
        PyStr s \<Rightarrow>
          (if s = [] then False
           else if int (length s) \<noteq> pin_length v then False
           else if \<not> isdigit s then False
           else True)
      | _ \<Rightarrow> False)"

definition is_common_pin :: "validator \<Rightarrow> string \<Rightarrow> bool" where
  "is_common_pin v pin = (pin \<in> common_pins v)"

text \<open>The loop over the three sources that tests the PIN against the patterns of one
  date; the extraction may raise.\<close>

fun direct_matches ::
  "validator \<Rightarrow> string \<Rightarrow> demographics \<Rightarrow> (string \<times> reason) list \<Rightarrow> py_error + reason list" where
  "direct_matches v pin d [] = Inr []"
| "direct_matches v pin d ((src, key) # rest) =
     (if demo_get d src \<noteq> [] then
        (case extract_date_patterns (demo_get d src) (pin_length v) of
           Inl e \<Rightarrow> Inl e
         | Inr patterns \<Rightarrow>
             (case direct_matches v pin d rest of
                Inl e \<Rightarrow> Inl e
              | Inr rs \<Rightarrow> Inr (if pin \<in> patterns then key # rs else rs)))
      else direct_matches v pin d rest)"

text \<open>The lists returned through \<open>list(set(...))\<close> have no specified order and no
  duplicates: the model returns the set of reasons.\<close>

definition check_demographic_matches ::
  "validator \<Rightarrow> (nat \<Rightarrow> real) \<Rightarrow> string \<Rightarrow> demographics \<Rightarrow> nat \<Rightarrow> py_error + (reason set \<times> nat)" where
  "check_demographic_matches v clk pin d t =
     (if d = [] then Inr ({}, t)
      else case direct_matches v pin d source_reason_map of
        Inl e \<Rightarrow> Inl e
      | Inr weakness_reasons \<Rightarrow>
          (let special_matches = check_direct_special_cases pin d in
           if special_matches \<noteq> [] then Inr (set (weakness_reasons @ special_matches), t)
           else if weakness_reasons = [] then
             (case generate_all_combinations (pattern_gen v) clk d t of
                Inl e \<Rightarrow> Inl e
              | Inr (prs, t') \<Rightarrow>
                  Inr (set (weakness_reasons @ (case prs pin of None \<Rightarrow> [] | Some l \<Rightarrow> l)), t'))
           else Inr (set weakness_reasons, t)))"

text \<open>The argument \<open>demographics\<close> is \<open>None\<close> or a dictionary; both \<open>None\<close> and the empty
  dictionary are false.\<close>

definition get_weakness_reasons ::
  "validator \<Rightarrow> (nat \<Rightarrow> real) \<Rightarrow> string \<Rightarrow> demographics option \<Rightarrow> nat \<Rightarrow>
   py_error + (reason set \<times> nat)" where
  "get_weakness_reasons v clk pin demo t =
     (let reasons = (if is_common_pin v pin then [COMMONLY_USED] else []) in
      case demo of
        None \<Rightarrow> Inr (set reasons, t)
      | Some d \<Rightarrow>
          (if d = [] then Inr (set reasons, t)
           else case check_demographic_matches v clk pin d t of
             Inl e \<Rightarrow> Inl e
           | Inr (demographic_reasons, t') \<Rightarrow> Inr (set reasons \<union> demographic_reasons, t')))"

definition evaluate_strength ::
  "validator \<Rightarrow> (nat \<Rightarrow> real) \<Rightarrow> string \<Rightarrow> demographics option \<Rightarrow> nat \<Rightarrow>
   py_error + (strength \<times> nat)" where
  "evaluate_strength v clk pin demo t =
     (case get_weakness_reasons v clk pin demo t of
        Inl e \<Rightarrow> Inl e
      | Inr (reasons, t') \<Rightarrow> Inr (if reasons \<noteq> {} then WEAK else STRONG, t'))"

record validation_result =
  result_pin :: string
  result_pin_length :: int
  strength :: strength
  weakness_reasons :: "reason set"

definition validate_pin ::
  "validator \<Rightarrow> (nat \<Rightarrow> real) \<Rightarrow> pyval \<Rightarrow> demographics option \<Rightarrow> nat \<Rightarrow>
   py_error + (validation_result \<times> nat)" where
  "validate_pin v clk pin demo t =
     (if \<not> validate_pin_format v pin then Inl ValueError
      else case pin of
        PyStr s \<Rightarrow>
          (case get_weakness_reasons v clk s demo t of
             Inl e \<Rightarrow> Inl e
           | Inr (reasons, t') \<Rightarrow>
               Inr (\<lparr>result_pin = s, result_pin_length = pin_length v,
                     strength = (if reasons \<noteq> {} then WEAK else STRONG),
                     weakness_reasons = reasons\<rparr>, t'))
      | _ \<Rightarrow> Inl ValueError)"

section \<open>Comparing reason dictionaries\<close>

text \<open>One dictionary is below another when, at every PIN, its reasons are among the
  other's; a PIN that is not a key has no reasons.\<close>

definition pr_le :: "pin_reasons \<Rightarrow> pin_reasons \<Rightarrow> bool" where
  "pr_le m1 m2 = (\<forall>k. set (pr_get m1 k) \<subseteq> set (pr_get m2 k))"

text \<open>Every key of a dictionary has the given length.\<close>

definition keys_len :: "int \<Rightarrow> pin_reasons \<Rightarrow> bool" where
  "keys_len n m = (\<forall>k \<in> dom m. int (length k) = n)"

section \<open>Evaluation and the errors that can reach the caller\<close>

lemmas date_eval = is_decimal_def digit_val_def digit_char_def str_nat.simps pad2_def
  py_getitem_def re_month_def re_day_def re_dash_def re_match_def is_leap_def
  days_in_month_def strptime_def dict_literal_def component_entries_def
  extract_date_components_def

lemmas pattern_eval = comp_get_def templates4_def templates6_def join_template_def
  template_patterns_def repetition_patterns_def extract_date_patterns_def Let_def

lemma extract_date_components_error:
  "extract_date_components s = Inl e \<Longrightarrow> e = IndexError"
  by (auto simp: extract_date_components_def dict_literal_def split: if_splits sum.splits)

lemma extract_date_patterns_error:
  "extract_date_patterns s n = Inl e \<Longrightarrow> e \<noteq> ValueError"
  by (auto simp: extract_date_patterns_def split: if_splits sum.splits
      dest: extract_date_components_error)

lemma direct_matches_error:
  "direct_matches v pin d srcs = Inl e \<Longrightarrow> e \<noteq> ValueError"
  by (induction srcs arbitrary: e)
     (auto split: if_splits sum.splits dest: extract_date_patterns_error)

lemma collect_sources_error:
  "collect_sources d srcs = Inl e \<Longrightarrow> e = IndexError"
  by (induction srcs arbitrary: e)
     (auto split: if_splits sum.splits dest: extract_date_components_error)

lemma generate_all_combinations_error:
  "generate_all_combinations g clk d t = Inl e \<Longrightarrow> e = IndexError"
  by (auto simp: generate_all_combinations_def split: if_splits sum.splits
      dest: collect_sources_error)

lemma check_demographic_matches_error:
  "check_demographic_matches v clk pin d t = Inl e \<Longrightarrow> e \<noteq> ValueError"
  by (auto simp: check_demographic_matches_def Let_def split: if_splits sum.splits
      dest: direct_matches_error generate_all_combinations_error)

lemma get_weakness_reasons_error:
  "get_weakness_reasons v clk pin demo t = Inl e \<Longrightarrow> e \<noteq> ValueError"
  by (auto simp: get_weakness_reasons_def Let_def split: if_splits sum.splits option.splits
      dest: check_demographic_matches_error)

section \<open>The validator's contract\<close>

text \<open>
  C10: constructing the validator with a PIN length other than 4 and 6 raises ValueError;
  with 4 or 6 it succeeds, the validator and its generator hold that length, and every
  result the validator returns later reports it.
\<close>

theorem init_pin_length:
  "(pin_len \<notin> {4, 6} \<longrightarrow> init get_common_pins pin_len = Inl ValueError) \<and>
   (pin_len \<in> {4, 6} \<longrightarrow>
      (\<exists>v. init get_common_pins pin_len = Inr v \<and> pin_length v = pin_len
           \<and> gen_pin_length (pattern_gen v) = pin_len
           \<and> (\<forall>clk pin demo t r t'. validate_pin v clk pin demo t = Inr (r, t')
                 \<longrightarrow> result_pin_length r = pin_len)))"
  by (auto simp: init_def validate_pin_def split: if_splits pyval.splits sum.splits)

theorem init_pin_length_witness:
  "init (\<lambda>n. {}) 5 = Inl ValueError \<and>
   (\<exists>v. init (\<lambda>n. {}) 6 = Inr v \<and> pin_length v = 6 \<and> gen_pin_length (pattern_gen v) = 6)"
  using init_pin_length [of 5 "\<lambda>n. {}"] init_pin_length [of 6 "\<lambda>n. {}"]
  by auto

text \<open>For both supported lengths, \<open>validate_pin\<close> raises the input-format error
  (ValueError) exactly when the PIN is not a string of \<open>pin_length\<close> characters that
  \<open>str.isdigit\<close> accepts. Whatever else the call raises is not the format error.\<close>

lemma validate_pin_format_error:
  assumes "pin_length v \<in> {4, 6}"
  shows "validate_pin v clk pin demo t = Inl ValueError \<longleftrightarrow>
         \<not> (\<exists>s. pin = PyStr s \<and> int (length s) = pin_length v \<and> list_all isdigit_char s)"
proof (cases "validate_pin_format v pin")
  case True
  then obtain s where s: "pin = PyStr s" "s \<noteq> []" "int (length s) = pin_length v" "isdigit s"
    by (auto simp: validate_pin_format_def split: pyval.splits if_splits)
  have "validate_pin v clk pin demo t \<noteq> Inl ValueError"
    using True s get_weakness_reasons_error [of v clk s demo t]
    by (auto simp: validate_pin_def split: sum.splits)
  moreover have "list_all isdigit_char s"
    using s by (simp add: isdigit_def)
  ultimately show ?thesis using s by auto
next
  case False
  then have "validate_pin v clk pin demo t = Inl ValueError"
    by (simp add: validate_pin_def)
  moreover have "\<not> (\<exists>s. pin = PyStr s \<and> int (length s) = pin_length v \<and> list_all isdigit_char s)"
  proof
    assume "\<exists>s. pin = PyStr s \<and> int (length s) = pin_length v \<and> list_all isdigit_char s"
    then obtain s where s: "pin = PyStr s" "int (length s) = pin_length v" "list_all isdigit_char s"
      by blast
    from s(2) assms have "s \<noteq> []" by auto
    with s have "validate_pin_format v pin"
      by (simp add: validate_pin_format_def isdigit_def)
    with False show False by simp
  qed
  ultimately show ?thesis by simp
qed

text \<open>
  C3 says that \<open>validate_pin\<close> rejects every PIN that is not a string of exactly
  \<open>pin_length\<close> decimal digits. The format check tests \<open>pin.isdigit()\<close>, which is also true
  of the superscript digits: the four characters \<open>1\<close>, \<open>2\<close>, superscript two (code point
  0xB2) and \<open>4\<close> are not all decimal digits, and the validator built for length 4 accepts
  them and returns the verdict STRONG; likewise with six characters for length 6.
\<close>

theorem superscript_digit_accepted:
  "\<not> list_all is_decimal [CHR ''1'', CHR ''2'', CHR 0xB2, CHR ''4''] \<and>
   (\<exists>v. init (\<lambda>n. {}) 4 = Inr v \<and>
        validate_pin v clk (PyStr [CHR ''1'', CHR ''2'', CHR 0xB2, CHR ''4'']) None t
          = Inr (\<lparr>result_pin = [CHR ''1'', CHR ''2'', CHR 0xB2, CHR ''4''],
                  result_pin_length = 4, strength = STRONG, weakness_reasons = {}\<rparr>, t)) \<and>
   \<not> list_all is_decimal [CHR ''1'', CHR ''2'', CHR ''3'', CHR ''4'', CHR ''5'', CHR 0xB3] \<and>
   (\<exists>v. init (\<lambda>n. {}) 6 = Inr v \<and>
        validate_pin v clk
          (PyStr [CHR ''1'', CHR ''2'', CHR ''3'', CHR ''4'', CHR ''5'', CHR 0xB3]) None t
          = Inr (\<lparr>result_pin = [CHR ''1'', CHR ''2'', CHR ''3'', CHR ''4'', CHR ''5'', CHR 0xB3],
                  result_pin_length = 6, strength = STRONG, weakness_reasons = {}\<rparr>, t))"
  by (simp add: init_def validate_pin_def validate_pin_format_def isdigit_def isdigit_char_def
      is_decimal_def get_weakness_reasons_def is_common_pin_def)

text \<open>
  C1: for the validator that the constructor builds for a PIN length, whose table is
  \<open>get_common_pins\<close> of that length, and a PIN that passes the format check, with
  demographics \<open>None\<close> or empty: if the PIN is in the table the verdict is WEAK with
  COMMONLY_USED among the reasons, and otherwise the verdict is STRONG with no reason.
\<close>

theorem common_pin_verdict:
  assumes "init get_common_pins n = Inr v"
    and "validate_pin_format v (PyStr pin)" and "demo = None \<or> demo = Some []"
  shows "(pin \<in> get_common_pins n \<longrightarrow>
            (\<exists>r. validate_pin v clk (PyStr pin) demo t = Inr (r, t) \<and> strength r = WEAK
                 \<and> COMMONLY_USED \<in> weakness_reasons r)) \<and>
         (pin \<notin> get_common_pins n \<longrightarrow>
            (\<exists>r. validate_pin v clk (PyStr pin) demo t = Inr (r, t) \<and> strength r = STRONG
                 \<and> weakness_reasons r = {}))"
proof -
  from assms(1) have "common_pins v = get_common_pins n"
    by (auto simp: init_def split: if_splits)
  then show ?thesis
    using assms(2,3)
    by (auto simp: validate_pin_def get_weakness_reasons_def is_common_pin_def)
qed

theorem common_pin_verdict_witness:
  "\<exists>v. init (\<lambda>n. if n = 4 then {''1234'', ''0000''} else {''123456''}) 4 = Inr v \<and>
     (\<exists>r. validate_pin v (\<lambda>k. 0) (PyStr ''1234'') None 0 = Inr (r, 0)
          \<and> strength r = WEAK \<and> COMMONLY_USED \<in> weakness_reasons r) \<and>
     (\<exists>r. validate_pin v (\<lambda>k. 0) (PyStr ''8193'') (Some []) 0 = Inr (r, 0)
          \<and> strength r = STRONG \<and> weakness_reasons r = {})"
proof -
  let ?table = "\<lambda>n::int. if n = 4 then {''1234'', ''0000''} else {''123456''}"
  let ?v = "\<lparr>pin_length = 4, common_pins = ?table 4,
             pattern_gen = \<lparr>gen_pin_length = 4, max_combinations = 500000,
                             max_execution_time = 3\<rparr>\<rparr>"
  have i: "init ?table 4 = Inr ?v"
    by (simp add: init_def)
  have f: "validate_pin_format ?v (PyStr ''1234'')" "validate_pin_format ?v (PyStr ''8193'')"
    by (simp_all add: validate_pin_format_def isdigit_def isdigit_char_def is_decimal_def)
  have "\<exists>r. validate_pin ?v (\<lambda>k. 0) (PyStr ''1234'') None 0 = Inr (r, 0)
          \<and> strength r = WEAK \<and> COMMONLY_USED \<in> weakness_reasons r"
    using common_pin_verdict [OF i f(1), of None "\<lambda>k. 0" 0] by simp
  moreover have "\<exists>r. validate_pin ?v (\<lambda>k. 0) (PyStr ''8193'') (Some []) 0 = Inr (r, 0)
          \<and> strength r = STRONG \<and> weakness_reasons r = {}"
    using common_pin_verdict [OF i f(2), of "Some []" "\<lambda>k. 0" 0] by simp
  ultimately show ?thesis
    using i by blast
qed

section \<open>The length of the decimal forms\<close>

lemma str_nat_nonempty: "str_nat n \<noteq> []"
  by (subst str_nat.simps) simp

lemma length_str_nat_small:
  "n < 10 \<Longrightarrow> length (str_nat n) = 1"
  by (subst str_nat.simps) simp

lemma length_str_nat_step:
  "10 \<le> n \<Longrightarrow> length (str_nat n) = Suc (length (str_nat (n div 10)))"
  by (subst str_nat.simps) simp

lemma length_str_nat_below_1000:
  assumes "n < 1000"
  shows "length (str_nat n) < 4"
proof -
  consider "n < 10" | "10 \<le> n" "n < 100" | "100 \<le> n" "n < 1000"
    using assms by linarith
  then show ?thesis
  proof cases
    case 1
    then show ?thesis by (simp add: length_str_nat_small)
  next
    case 2
    then have "n div 10 < 10" by simp
    with 2 show ?thesis by (simp add: length_str_nat_step length_str_nat_small)
  next
    case 3
    then have a: "10 \<le> n" "10 \<le> n div 10" "n div 10 div 10 < 10" by simp_all
    then show ?thesis by (simp add: length_str_nat_step length_str_nat_small)
  qed
qed

lemma length_str_nat_from_1000:
  assumes "1000 \<le> n"
  shows "4 \<le> length (str_nat n)"
proof -
  have a: "10 \<le> n" "10 \<le> n div 10" "10 \<le> n div 10 div 10"
    using assms by simp_all
  have "1 \<le> length (str_nat (n div 10 div 10 div 10))"
    using str_nat_nonempty [of "n div 10 div 10 div 10"]
    by (cases "str_nat (n div 10 div 10 div 10)") simp_all
  then show ?thesis
    using a by (simp add: length_str_nat_step)
qed

lemma length_pad2: "2 \<le> length (pad2 n)"
proof (cases "n < 10")
  case True
  then show ?thesis by (simp add: pad2_def length_str_nat_small)
next
  case False
  then have "10 \<le> n" by simp
  then show ?thesis
    using False str_nat_nonempty [of "n div 10"]
    by (cases "str_nat (n div 10)") (simp_all add: pad2_def length_str_nat_step)
qed

text \<open>What the extraction returns on every input: nothing for a missing or unparseable
  date, the IndexError for a date before the year 1000, the 29 components otherwise.\<close>

lemma extract_date_components_cases:
  "extract_date_components s =
     (if s = [] then Inr []
      else case strptime s of
        Inl e \<Rightarrow> Inr []
      | Inr (y, m, d) \<Rightarrow>
          (if y < 1000 then Inl IndexError
           else Inr (map (\<lambda>(k, v). (k, the v)) (component_entries s y m d))))"
proof (cases "s = []")
  case True
  then show ?thesis by (simp add: extract_date_components_def)
next
  case False
  show ?thesis
  proof (cases "strptime s")
    case (Inl e)
    then show ?thesis using False by (simp add: extract_date_components_def)
  next
    case (Inr p)
    obtain y m d where p: "p = (y, m, d)" by (cases p)
    have pm: "2 \<le> length (pad2 m)" and pd: "2 \<le> length (pad2 d)"
      by (rule length_pad2)+
    show ?thesis
    proof (cases "y < 1000")
      case True
      then have "length (str_nat y) < 4" by (rule length_str_nat_below_1000)
      then show ?thesis
        using False Inr p True
        by (simp add: extract_date_components_def dict_literal_def component_entries_def
            py_getitem_def)
    next
      case ge: False
      then have "4 \<le> length (str_nat y)" by (simp add: length_str_nat_from_1000)
      moreover have "pad2 m \<noteq> []" "pad2 d \<noteq> []" "str_nat y \<noteq> []"
        using pm pd by (auto simp: str_nat_nonempty)
      ultimately show ?thesis
        using False Inr p ge pm pd
        by (simp add: extract_date_components_def dict_literal_def component_entries_def
            py_getitem_def)
    qed
  qed
qed

section \<open>Date component extraction\<close>

text \<open>
  C4 says that \<open>extract_date_components\<close> never raises. The date \<open>0999-01-01\<close> is a valid
  date of the format: the library parses it to the year 999, whose decimal form has three
  characters, and the entry \<open>Y_4\<close> of the dictionary literal indexes past its end.
\<close>

theorem year_below_1000_raises:
  "strptime ''0999-01-01'' = Inr (999, 1, 1) \<and>
   extract_date_components ''0999-01-01'' = Inl IndexError"
  by (simp add: date_eval)

section \<open>The order on reason dictionaries\<close>

text \<open>Every operation on \<open>pin_reasons\<close> only adds reasons, and adds more when it starts from
  more. Both facts are proved for each generator, so that a reason recorded at one stage
  is still there at the end.\<close>

lemma pr_le_refl: "pr_le m m"
  by (simp add: pr_le_def)

lemma pr_le_trans: "pr_le a b \<Longrightarrow> pr_le b c \<Longrightarrow> pr_le a c"
  unfolding pr_le_def by blast

lemma pr_get_append_reasons:
  "pr_get (append_reasons pin rs pr) k = (if k = pin then pr_get pr pin @ rs else pr_get pr k)"
  by (simp add: append_reasons_def pr_get_def)

lemma set_fold_unique:
  "set (fold (\<lambda>r l. if r \<in> set l then l else l @ [r]) rs l) = set l \<union> set rs"
  by (induction rs arbitrary: l) auto

lemma set_pr_get_add_unique:
  "set (pr_get (add_unique_reasons pin rs pr) k) =
     (if k = pin then set (pr_get pr pin) \<union> set rs else set (pr_get pr k))"
  by (cases "pr pin") (auto simp: add_unique_reasons_def pr_get_def set_fold_unique)

lemma append_reasons_mono:
  "pr_le a b \<Longrightarrow> pr_le (append_reasons pin rs a) (append_reasons pin rs b)"
  unfolding pr_le_def pr_get_append_reasons by auto

lemma append_reasons_above:
  "pr_le a b \<Longrightarrow> pr_le a (append_reasons pin rs b)"
  unfolding pr_le_def pr_get_append_reasons by auto

lemma append_if_len_mono:
  "pr_le a b \<Longrightarrow> pr_le (append_if_len g pin rs a) (append_if_len g pin rs b)"
  by (simp add: append_if_len_def append_reasons_mono)

lemma append_if_len_above:
  "pr_le a b \<Longrightarrow> pr_le a (append_if_len g pin rs b)"
  by (simp add: append_if_len_def append_reasons_above)

lemma store_pin_mono:
  "gen_pin_length g = gen_pin_length g' \<Longrightarrow> pr_le a b \<Longrightarrow>
   pr_le (store_pin g rs parts a) (store_pin g' rs parts b)"
  unfolding pr_le_def store_pin_def by (auto simp: set_pr_get_add_unique)

lemma store_pin_above:
  "pr_le a b \<Longrightarrow> pr_le a (store_pin g rs parts b)"
  unfolding pr_le_def store_pin_def by (auto simp: set_pr_get_add_unique)

lemma fold_mono:
  assumes "\<And>x a b. pr_le a b \<Longrightarrow> pr_le (F x a) (F x b)" and "pr_le a b"
  shows "pr_le (fold F xs a) (fold F xs b)"
  using assms(2) by (induction xs arbitrary: a b) (auto intro: assms(1))

lemma fold_above:
  assumes "\<And>x a b. pr_le a b \<Longrightarrow> pr_le a (F x b)" and "pr_le a b"
  shows "pr_le a (fold F xs b)"
  using assms(2) by (induction xs arbitrary: b) (auto intro: assms(1))

lemma pr_le_if_mono:
  "(c \<Longrightarrow> pr_le x y) \<Longrightarrow> (\<not> c \<Longrightarrow> pr_le x' y') \<Longrightarrow>
   pr_le (if c then x else x') (if c then y else y')"
  by simp

lemma pr_le_if_above:
  "(c \<Longrightarrow> pr_le a y) \<Longrightarrow> (\<not> c \<Longrightarrow> pr_le a y') \<Longrightarrow> pr_le a (if c then y else y')"
  by simp

lemmas mono_rules = pr_le_if_mono append_reasons_mono append_if_len_mono
lemmas above_rules = pr_le_if_above append_reasons_above append_if_len_above

lemma day_repeat_mono: "pr_le a b \<Longrightarrow> pr_le (day_repeat n src a) (day_repeat n src b)"
  unfolding day_repeat_def Let_def
  by (intro mono_rules) assumption+

lemma day_repeat_above: "pr_le a b \<Longrightarrow> pr_le a (day_repeat n src b)"
  unfolding day_repeat_def Let_def
  by (intro above_rules) assumption+

lemma special4_pair_mono: "pr_le a b \<Longrightarrow> pr_le (special4_pair g p a) (special4_pair g p b)"
  unfolding special4_pair_def Let_def
  by (intro mono_rules) assumption+

lemma special4_pair_above: "pr_le a b \<Longrightarrow> pr_le a (special4_pair g p b)"
  unfolding special4_pair_def Let_def
  by (intro above_rules) assumption+

lemma full_rev_prefix_mono: "pr_le a b \<Longrightarrow> pr_le (full_rev_prefix g s a) (full_rev_prefix g s b)"
  unfolding full_rev_prefix_def Let_def
  by (intro mono_rules) assumption+

lemma full_rev_prefix_above: "pr_le a b \<Longrightarrow> pr_le a (full_rev_prefix g s b)"
  unfolding full_rev_prefix_def Let_def
  by (intro above_rules) assumption+

lemma special6_pair_mono: "pr_le a b \<Longrightarrow> pr_le (special6_pair g p a) (special6_pair g p b)"
  unfolding special6_pair_def Let_def
  by (intro mono_rules) assumption+

lemma special6_pair_above: "pr_le a b \<Longrightarrow> pr_le a (special6_pair g p b)"
  unfolding special6_pair_def Let_def
  by (intro above_rules) assumption+

lemma cross_rules_mono:
  "pr_le a b \<Longrightarrow> pr_le (cross_rule1 g s w a) (cross_rule1 g s w b)"
  "pr_le a b \<Longrightarrow> pr_le (cross_rule2 g d s w a) (cross_rule2 g d s w b)"
  "pr_le a b \<Longrightarrow> pr_le (cross_rule3 g d s w a) (cross_rule3 g d s w b)"
  "pr_le a b \<Longrightarrow> pr_le (cross_rule4 g d s w a) (cross_rule4 g d s w b)"
  unfolding cross_rule1_def cross_rule2_def cross_rule3_def cross_rule4_def Let_def
  by (intro mono_rules; assumption)+

lemma cross_rules_above:
  "pr_le a b \<Longrightarrow> pr_le a (cross_rule1 g s w b)"
  "pr_le a b \<Longrightarrow> pr_le a (cross_rule2 g d s w b)"
  "pr_le a b \<Longrightarrow> pr_le a (cross_rule3 g d s w b)"
  "pr_le a b \<Longrightarrow> pr_le a (cross_rule4 g d s w b)"
  unfolding cross_rule1_def cross_rule2_def cross_rule3_def cross_rule4_def Let_def
  by (intro above_rules; assumption)+

lemma cross_source_mono:
  "pr_le a b \<Longrightarrow>
   pr_le (generate_cross_source_patterns g scs a) (generate_cross_source_patterns g scs b)"
  by (auto simp: generate_cross_source_patterns_def split: option.splits
      intro!: cross_rules_mono)

lemma cross_source_above:
  "pr_le a b \<Longrightarrow> pr_le a (generate_cross_source_patterns g scs b)"
  by (auto simp: generate_cross_source_patterns_def split: option.splits
      intro!: cross_rules_above)

lemma day_repetition_mono: "pr_le a b \<Longrightarrow> pr_le (day_repetition g s a) (day_repetition g s b)"
  unfolding day_repetition_def Let_def
  by (intro mono_rules) assumption+

lemma day_repetition_above: "pr_le a b \<Longrightarrow> pr_le a (day_repetition g s b)"
  unfolding day_repetition_def Let_def
  by (intro above_rules) assumption+

lemma special_case_mono:
  "pr_le a b \<Longrightarrow> pr_le (special_case g r dt pin s a) (special_case g r dt pin s b)"
  unfolding special_case_def Let_def
  by (intro mono_rules) assumption+

lemma special_case_above: "pr_le a b \<Longrightarrow> pr_le a (special_case g r dt pin s b)"
  unfolding special_case_def Let_def
  by (intro above_rules) assumption+

lemma special_4digit_mono:
  "pr_le a b \<Longrightarrow>
   pr_le (generate_special_patterns_4digit g scs a) (generate_special_patterns_4digit g scs b)"
  unfolding generate_special_patterns_4digit_def
  by (intro fold_mono special4_pair_mono day_repeat_mono)

lemma special_4digit_above:
  "pr_le a b \<Longrightarrow> pr_le a (generate_special_patterns_4digit g scs b)"
  unfolding generate_special_patterns_4digit_def
  by (intro fold_above special4_pair_above day_repeat_above)

lemma special_6digit_mono:
  "pr_le a b \<Longrightarrow>
   pr_le (generate_special_patterns_6digit g scs a) (generate_special_patterns_6digit g scs b)"
  unfolding generate_special_patterns_6digit_def
  by (intro fold_mono special6_pair_mono full_rev_prefix_mono day_repeat_mono)

lemma special_6digit_above:
  "pr_le a b \<Longrightarrow> pr_le a (generate_special_patterns_6digit g scs b)"
  unfolding generate_special_patterns_6digit_def
  by (intro fold_above special6_pair_above full_rev_prefix_above day_repeat_above)

lemma day_repetition_patterns_mono:
  "pr_le a b \<Longrightarrow>
   pr_le (generate_day_repetition_patterns g scs a) (generate_day_repetition_patterns g scs b)"
  unfolding generate_day_repetition_patterns_def
  by (intro fold_mono day_repetition_mono)

lemma day_repetition_patterns_above:
  "pr_le a b \<Longrightarrow> pr_le a (generate_day_repetition_patterns g scs b)"
  unfolding generate_day_repetition_patterns_def
  by (intro fold_above day_repetition_above)

lemma check_special_cases_mono:
  "pr_le a b \<Longrightarrow> pr_le (check_special_cases g scs a) (check_special_cases g scs b)"
  unfolding check_special_cases_def
  by (intro fold_mono special_case_mono)

lemma check_special_cases_above:
  "pr_le a b \<Longrightarrow> pr_le a (check_special_cases g scs b)"
  unfolding check_special_cases_def
  by (intro fold_above special_case_above)

section \<open>The budget in the combination loops\<close>

text \<open>A run that no check cuts short stores every element of the product; a run that is
  cut short stores a prefix. The product has at most 8000 elements, so the default budget
  never cuts a loop.\<close>

lemma pins_loop_above:
  "pr_le a b \<Longrightarrow> pr_le a (fst (pins_loop g clk st rs xs b cc t))"
  by (induction xs arbitrary: b cc t) (auto intro: store_pin_above)

lemma pins_loop_clock: "t \<le> snd (pins_loop g clk st rs xs m cc t)"
proof (induction xs arbitrary: m cc t)
  case Nil
  show ?case by simp
next
  case (Cons parts rest)
  have "Suc t \<le> snd (pins_loop g clk st rs rest (store_pin g rs parts m) (cc + 1) (Suc t))"
    by (rule Cons.IH)
  then show ?case by auto
qed

lemma pins_loop_full:
  assumes "\<forall>k. clk k - st \<le> max_execution_time g"
    and "cc + int (length xs) \<le> max_combinations g"
  shows "fst (pins_loop g clk st rs xs m cc t) = fold (store_pin g rs) xs m"
  using assms(2)
proof (induction xs arbitrary: m cc t)
  case Nil
  show ?case by simp
next
  case (Cons parts rest)
  have "\<not> clk t - st > max_execution_time g"
    using assms(1) by (simp add: not_less)
  moreover have "\<not> cc + 1 > max_combinations g"
    using Cons.prems by simp
  moreover have "cc + 1 + int (length rest) \<le> max_combinations g"
    using Cons.prems by simp
  ultimately show ?case
    using Cons.IH [of "cc + 1"] by simp
qed

lemma pins_loop_le_fold:
  assumes "gen_pin_length g = gen_pin_length g'" and "pr_le a b"
  shows "pr_le (fst (pins_loop g clk st rs xs a cc t)) (fold (store_pin g' rs) xs b)"
  using assms(2)
proof (induction xs arbitrary: a b cc t)
  case Nil
  then show ?case by simp
next
  case (Cons parts rest)
  have above: "pr_le a (fold (store_pin g' rs) rest (store_pin g' rs parts b))"
    by (intro fold_above store_pin_above Cons.prems)
  have step: "pr_le (store_pin g rs parts a) (store_pin g' rs parts b)"
    by (rule store_pin_mono [OF assms(1) Cons.prems])
  show ?case
    using above Cons.IH [OF step] by simp
qed

lemma length_product_lists_prod:
  "length (product_lists xss) = prod_list (map length xss)"
  by (induction xss) (simp_all add: length_concat o_def sum_list_triv)

lemma prod_list_bounded:
  "\<forall>n \<in> set ns. n \<le> (b::nat) \<Longrightarrow> prod_list ns \<le> b ^ length ns"
  by (induction ns) (auto intro: mult_mono)

lemma limited_product_bound:
  assumes "length css \<le> 3"
  shows "length (product_lists
           (if prod_list (map length css) > 5000
            then map (\<lambda>cs. take (min 20 (length cs)) cs) css else css)) \<le> 8000"
proof (cases "prod_list (map length css) > 5000")
  case True
  have "prod_list (map length (map (\<lambda>cs. take (min 20 (length cs)) cs) css))
          \<le> 20 ^ length (map length (map (\<lambda>cs. take (min 20 (length cs)) cs) css))"
    by (rule prod_list_bounded) auto
  also have "\<dots> = (20::nat) ^ length css" by simp
  also have "\<dots> \<le> 20 ^ 3"
    using assms by (intro power_increasing) auto
  finally show ?thesis
    using True by (simp add: length_product_lists_prod)
next
  case False
  then show ?thesis by (simp add: length_product_lists_prod)
qed

lemma generate_pins_above:
  "pr_le a b \<Longrightarrow> pr_le a (fst (generate_pins_from_components g clk st css rs b cc t))"
  by (simp add: generate_pins_from_components_def pins_loop_above)

lemma generate_pins_clock:
  "t \<le> snd (generate_pins_from_components g clk st css rs m cc t)"
  by (simp add: generate_pins_from_components_def pins_loop_clock)

lemma generate_pins_le:
  assumes "gen_pin_length g = gen_pin_length g'" and "pr_le a b"
    and "\<forall>k. clk' k - st' \<le> max_execution_time g'"
    and "length css \<le> 3" and "cc' + 8000 \<le> max_combinations g'"
  shows "pr_le (fst (generate_pins_from_components g clk st css rs a cc t))
               (fst (generate_pins_from_components g' clk' st' css rs b cc' t'))"
proof (cases "list_all (\<lambda>cs. cs \<noteq> []) css")
  case False
  then show ?thesis using assms(2) by (simp add: generate_pins_from_components_def)
next
  case True
  let ?xs = "product_lists (if prod_list (map length css) > 5000
               then map (\<lambda>cs. take (min 20 (length cs)) cs) css else css)"
  have "length ?xs \<le> 8000" by (rule limited_product_bound [OF assms(4)])
  then have "cc' + int (length ?xs) \<le> max_combinations g'"
    using assms(5) by linarith
  then have "fst (pins_loop g' clk' st' rs ?xs b cc' t') = fold (store_pin g' rs) ?xs b"
    by (rule pins_loop_full [OF assms(3)])
  moreover have "pr_le (fst (pins_loop g clk st rs ?xs a cc t)) (fold (store_pin g' rs) ?xs b)"
    by (rule pins_loop_le_fold [OF assms(1,2)])
  ultimately show ?thesis
    using True by (simp add: generate_pins_from_components_def)
qed

lemma n_digit_loop_above:
  "pr_le a b \<Longrightarrow> pr_le a (fst (n_digit_loop g clk st pls cc xs b t))"
proof (induction xs arbitrary: b t)
  case Nil
  then show ?case by simp
next
  case (Cons sc rest)
  let ?r = "generate_pins_from_components g clk st
              (map (\<lambda>(src, part_length). extract_components_by_length (components src) part_length)
                 (zip sc pls))
              (map reason sc) b cc (Suc t)"
  have "pr_le a (fst ?r)"
    by (rule generate_pins_above [OF Cons.prems])
  then have "pr_le a (fst (n_digit_loop g clk st pls cc rest (fst ?r) (snd ?r)))"
    by (rule Cons.IH)
  then show ?case
    using Cons.prems by (simp add: case_prod_beta)
qed

lemma n_digit_loop_clock: "t \<le> snd (n_digit_loop g clk st pls cc xs m t)"
proof (induction xs arbitrary: m t)
  case Nil
  show ?case by simp
next
  case (Cons sc rest)
  let ?r = "generate_pins_from_components g clk st
              (map (\<lambda>(src, part_length). extract_components_by_length (components src) part_length)
                 (zip sc pls))
              (map reason sc) m cc (Suc t)"
  have "Suc t \<le> snd ?r" by (rule generate_pins_clock)
  also have "snd ?r \<le> snd (n_digit_loop g clk st pls cc rest (fst ?r) (snd ?r))"
    by (rule Cons.IH)
  finally show ?case by (simp add: case_prod_beta)
qed

lemma n_digit_loop_le:
  assumes "gen_pin_length g = gen_pin_length g'"
    and "\<forall>k. clk' k - st' \<le> max_execution_time g'"
    and "length pls \<le> 3" and "8000 \<le> max_combinations g'"
    and "pr_le a b"
  shows "pr_le (fst (n_digit_loop g clk st pls cc xs a t))
               (fst (n_digit_loop g' clk' st' pls 0 xs b t'))"
  using assms(5)
proof (induction xs arbitrary: a b t t')
  case Nil
  then show ?case by simp
next
  case (Cons sc rest)
  let ?css = "map (\<lambda>(src, part_length). extract_components_by_length (components src) part_length)
                (zip sc pls)"
  let ?r = "generate_pins_from_components g clk st ?css (map reason sc) a cc (Suc t)"
  let ?r' = "generate_pins_from_components g' clk' st' ?css (map reason sc) b 0 (Suc t')"
  have len: "length ?css \<le> 3" using assms(3) by simp
  have go': "\<not> (clk' t' - st' > max_execution_time g' \<or> 0 > max_combinations g')"
    using assms(2,4) by (auto simp: not_less)
  have full: "fst (n_digit_loop g' clk' st' pls 0 (sc # rest) b t')
                = fst (n_digit_loop g' clk' st' pls 0 rest (fst ?r') (snd ?r'))"
    using go' by (simp add: case_prod_beta)
  show ?case
  proof (cases "clk t - st > max_execution_time g \<or> cc > max_combinations g")
    case True
    have "pr_le a (fst ?r')"
      by (rule generate_pins_above [OF Cons.prems])
    then have "pr_le a (fst (n_digit_loop g' clk' st' pls 0 rest (fst ?r') (snd ?r')))"
      by (rule n_digit_loop_above)
    then show ?thesis using True full by simp
  next
    case False
    have "pr_le (fst ?r) (fst ?r')"
      using assms(4) by (intro generate_pins_le assms(1,2) Cons.prems len) simp
    then have "pr_le (fst (n_digit_loop g clk st pls cc rest (fst ?r) (snd ?r)))
                     (fst (n_digit_loop g' clk' st' pls 0 rest (fst ?r') (snd ?r')))"
      by (rule Cons.IH)
    then show ?thesis using False full by (simp add: case_prod_beta)
  qed
qed

lemma n_digit_combinations_above:
  "pr_le a b \<Longrightarrow> pr_le a (fst (generate_n_digit_combinations g clk st scs pls b cc t))"
  by (simp add: generate_n_digit_combinations_def n_digit_loop_above)

lemma n_digit_combinations_clock:
  "t \<le> snd (generate_n_digit_combinations g clk st scs pls m cc t)"
  by (simp add: generate_n_digit_combinations_def n_digit_loop_clock)

lemma n_digit_combinations_le:
  assumes "gen_pin_length g = gen_pin_length g'"
    and "\<forall>k. clk' k - st' \<le> max_execution_time g'"
    and "length pls \<le> 3" and "8000 \<le> max_combinations g'"
    and "pr_le a b"
  shows "pr_le (fst (generate_n_digit_combinations g clk st scs pls a cc t))
               (fst (generate_n_digit_combinations g' clk' st' scs pls b 0 t'))"
  using assms by (simp add: generate_n_digit_combinations_def n_digit_loop_le)

lemma append_if_len_cong:
  "gen_pin_length g = gen_pin_length g' \<Longrightarrow> append_if_len g = append_if_len g'"
  by (simp add: append_if_len_def fun_eq_iff)

lemma specials_cong:
  assumes "gen_pin_length g = gen_pin_length g'"
  shows "generate_special_patterns_4digit g = generate_special_patterns_4digit g'"
    and "generate_special_patterns_6digit g = generate_special_patterns_6digit g'"
    and "generate_cross_source_patterns g = generate_cross_source_patterns g'"
    and "generate_day_repetition_patterns g = generate_day_repetition_patterns g'"
    and "check_special_cases g = check_special_cases g'"
proof -
  note c = append_if_len_cong [OF assms] assms
  have "special4_pair g p pr = special4_pair g' p pr" for p pr
    unfolding special4_pair_def c by (rule refl)
  then have p4: "special4_pair g = special4_pair g'" by (auto simp: fun_eq_iff)
  have "special6_pair g p pr = special6_pair g' p pr" for p pr
    unfolding special6_pair_def c by (rule refl)
  then have p6: "special6_pair g = special6_pair g'" by (auto simp: fun_eq_iff)
  have "full_rev_prefix g p pr = full_rev_prefix g' p pr" for p pr
    unfolding full_rev_prefix_def c by (rule refl)
  then have fr: "full_rev_prefix g = full_rev_prefix g'" by (auto simp: fun_eq_iff)
  have "cross_rule1 g s w pr = cross_rule1 g' s w pr" for s w pr
    unfolding cross_rule1_def c by (rule refl)
  then have c1: "cross_rule1 g = cross_rule1 g'" by (auto simp: fun_eq_iff)
  have "cross_rule2 g d s w pr = cross_rule2 g' d s w pr" for d s w pr
    unfolding cross_rule2_def c by (rule refl)
  then have c2: "cross_rule2 g = cross_rule2 g'" by (auto simp: fun_eq_iff)
  have "cross_rule3 g d s w pr = cross_rule3 g' d s w pr" for d s w pr
    unfolding cross_rule3_def c by (rule refl)
  then have c3: "cross_rule3 g = cross_rule3 g'" by (auto simp: fun_eq_iff)
  have "cross_rule4 g d s w pr = cross_rule4 g' d s w pr" for d s w pr
    unfolding cross_rule4_def c by (rule refl)
  then have c4: "cross_rule4 g = cross_rule4 g'" by (auto simp: fun_eq_iff)
  have "day_repetition g s pr = day_repetition g' s pr" for s pr
    unfolding day_repetition_def c by (rule refl)
  then have dr: "day_repetition g = day_repetition g'" by (auto simp: fun_eq_iff)
  have "special_case g r dt pin s pr = special_case g' r dt pin s pr" for r dt pin s pr
    unfolding special_case_def c by (rule refl)
  then have sc: "special_case g = special_case g'" by (auto simp: fun_eq_iff)
  have "generate_special_patterns_4digit g scs pr = generate_special_patterns_4digit g' scs pr"
    for scs pr unfolding generate_special_patterns_4digit_def p4 by (rule refl)
  then show "generate_special_patterns_4digit g = generate_special_patterns_4digit g'"
    by (auto simp: fun_eq_iff)
  have "generate_special_patterns_6digit g scs pr = generate_special_patterns_6digit g' scs pr"
    for scs pr unfolding generate_special_patterns_6digit_def p6 fr by (rule refl)
  then show "generate_special_patterns_6digit g = generate_special_patterns_6digit g'"
    by (auto simp: fun_eq_iff)
  have "generate_cross_source_patterns g scs pr = generate_cross_source_patterns g' scs pr"
    for scs pr unfolding generate_cross_source_patterns_def c1 c2 c3 c4 by (rule refl)
  then show "generate_cross_source_patterns g = generate_cross_source_patterns g'"
    by (auto simp: fun_eq_iff)
  have "generate_day_repetition_patterns g scs pr = generate_day_repetition_patterns g' scs pr"
    for scs pr unfolding generate_day_repetition_patterns_def dr by (rule refl)
  then show "generate_day_repetition_patterns g = generate_day_repetition_patterns g'"
    by (auto simp: fun_eq_iff)
  have "check_special_cases g scs pr = check_special_cases g' scs pr"
    for scs pr unfolding check_special_cases_def sc by (rule refl)
  then show "check_special_cases g = check_special_cases g'"
    by (auto simp: fun_eq_iff)
qed

lemma generate_4_le:
  assumes "gen_pin_length g = gen_pin_length g'"
    and "\<forall>k. clk' k - st' \<le> max_execution_time g'" and "8000 \<le> max_combinations g'"
  shows "pr_le (fst (generate_4 g clk st scs t)) (fst (generate_4 g' clk' st' scs t'))"
proof -
  have "pr_le (fst (generate_n_digit_combinations g clk st scs [2, 2] Map.empty 0 t))
              (fst (generate_n_digit_combinations g' clk' st' scs [2, 2] Map.empty 0 t'))"
    by (intro n_digit_combinations_le assms pr_le_refl) simp
  then show ?thesis
    by (simp add: generate_4_def case_prod_beta specials_cong [OF assms(1)]
        special_4digit_mono)
qed

lemma generate_6_le:
  assumes "gen_pin_length g = gen_pin_length g'"
    and "\<forall>k. clk' k - st' \<le> max_execution_time g'" and "8000 \<le> max_combinations g'"
  shows "pr_le (fst (generate_6 g clk st scs t)) (fst (generate_6 g' clk' st' scs t'))"
proof -
  let ?a1 = "generate_n_digit_combinations g clk st scs [2, 2, 2] Map.empty 0 t"
  let ?b1 = "generate_n_digit_combinations g' clk' st' scs [2, 2, 2] Map.empty 0 t'"
  let ?a2 = "generate_n_digit_combinations g clk st scs [2, 4] (fst ?a1) 0 (snd ?a1)"
  let ?b2 = "generate_n_digit_combinations g' clk' st' scs [2, 4] (fst ?b1) 0 (snd ?b1)"
  let ?a3 = "generate_n_digit_combinations g clk st scs [4, 2] (fst ?a2) 0 (snd ?a2)"
  let ?b3 = "generate_n_digit_combinations g' clk' st' scs [4, 2] (fst ?b2) 0 (snd ?b2)"
  have "pr_le (fst ?a1) (fst ?b1)"
    by (intro n_digit_combinations_le assms pr_le_refl) simp
  then have "pr_le (fst ?a2) (fst ?b2)"
    by (intro n_digit_combinations_le assms pr_le_refl) simp_all
  then have "pr_le (fst ?a3) (fst ?b3)"
    by (intro n_digit_combinations_le assms pr_le_refl) simp_all
  then have "pr_le
      (check_special_cases g' scs (generate_day_repetition_patterns g' scs
         (generate_cross_source_patterns g' scs
            (generate_special_patterns_6digit g' scs (fst ?a3)))))
      (check_special_cases g' scs (generate_day_repetition_patterns g' scs
         (generate_cross_source_patterns g' scs
            (generate_special_patterns_6digit g' scs (fst ?b3)))))"
    by (intro check_special_cases_mono day_repetition_patterns_mono cross_source_mono
        special_6digit_mono)
  then show ?thesis
    by (simp add: generate_6_def case_prod_beta specials_cong [OF assms(1)])
qed

lemma generate_4_clock: "t \<le> snd (generate_4 g clk st scs t)"
  by (simp add: generate_4_def case_prod_beta n_digit_combinations_clock)

lemma generate_6_clock: "t \<le> snd (generate_6 g clk st scs t)"
proof -
  let ?a1 = "generate_n_digit_combinations g clk st scs [2, 2, 2] Map.empty 0 t"
  let ?a2 = "generate_n_digit_combinations g clk st scs [2, 4] (fst ?a1) 0 (snd ?a1)"
  let ?a3 = "generate_n_digit_combinations g clk st scs [4, 2] (fst ?a2) 0 (snd ?a2)"
  have "t \<le> snd ?a1" by (rule n_digit_combinations_clock)
  also have "\<dots> \<le> snd ?a2" by (rule n_digit_combinations_clock)
  also have "\<dots> \<le> snd ?a3" by (rule n_digit_combinations_clock)
  finally show ?thesis by (simp add: generate_6_def case_prod_beta)
qed

lemma generate_all_combinations_clock:
  "generate_all_combinations g clk d t = Inr (m, u) \<Longrightarrow> t < u"
  using generate_4_clock [of "Suc t" g clk "clk t"] generate_6_clock [of "Suc t" g clk "clk t"]
  by (auto simp: generate_all_combinations_def split: sum.splits if_splits
      dest!: arg_cong [where f = snd] simp: less_eq_Suc_le)

lemma generate_all_combinations_le:
  assumes "gen_pin_length g = gen_pin_length g'"
    and "\<forall>k. clk' k - clk' t' \<le> max_execution_time g'" and "8000 \<le> max_combinations g'"
    and "generate_all_combinations g' clk' d t' = Inr (m', u')"
  shows "\<exists>m u. generate_all_combinations g clk d t = Inr (m, u) \<and> pr_le m m'"
proof -
  from assms(4) obtain scs where scs: "collect_sources d source_reason_map = Inr scs"
    by (auto simp: generate_all_combinations_def split: sum.splits)
  have m': "m' = fst (if scs = [] then (Map.empty, Suc t')
                    else if gen_pin_length g' = 4 then generate_4 g' clk' (clk' t') scs (Suc t')
                    else if gen_pin_length g' = 6 then generate_6 g' clk' (clk' t') scs (Suc t')
                    else (Map.empty, Suc t'))"
    using assms(4) scs by (auto simp: generate_all_combinations_def split: if_splits)
  let ?r = "if scs = [] then (Map.empty, Suc t)
            else if gen_pin_length g = 4 then generate_4 g clk (clk t) scs (Suc t)
            else if gen_pin_length g = 6 then generate_6 g clk (clk t) scs (Suc t)
            else (Map.empty, Suc t)"
  have "generate_all_combinations g clk d t = Inr (fst ?r, snd ?r)"
    using scs by (simp add: generate_all_combinations_def)
  moreover have "pr_le (fst ?r) m'"
    unfolding m' using assms(1)
    by (auto simp: pr_le_refl intro!: generate_4_le generate_6_le assms(2,3))
  ultimately show ?thesis by blast
qed

section \<open>The validator's use of the generator\<close>

lemmas validator_eval = demo_get_def source_reason_map_def check_direct_special_cases_def
  check_demographic_matches_def get_weakness_reasons_def validate_pin_def
  validate_pin_format_def isdigit_def isdigit_char_def

lemma extract_date_patterns_components:
  "extract_date_patterns s n = Inr P \<Longrightarrow> \<exists>c. extract_date_components s = Inr c"
  by (auto simp: extract_date_patterns_def split: sum.splits)

lemma direct_matches_collect:
  "direct_matches v pin d srcs = Inr ws \<Longrightarrow> \<exists>scs. collect_sources d srcs = Inr scs"
proof (induction srcs arbitrary: ws)
  case Nil
  show ?case by simp
next
  case (Cons p srcs)
  obtain src key where p: "p = (src, key)" by (cases p)
  from Cons.prems p obtain ws' where ws': "direct_matches v pin d srcs = Inr ws'"
    by (auto split: if_splits sum.splits)
  then obtain scs where scs: "collect_sources d srcs = Inr scs"
    using Cons.IH by blast
  show ?case
  proof (cases "demo_get d src \<noteq> []")
    case True
    with Cons.prems p obtain P where "extract_date_patterns (demo_get d src) (pin_length v) = Inr P"
      by (auto split: sum.splits)
    then obtain c where "extract_date_components (demo_get d src) = Inr c"
      using extract_date_patterns_components by blast
    then show ?thesis using True p scs by simp
  next
    case False
    then show ?thesis using p scs by simp
  qed
qed

lemma generate_all_combinations_returns:
  "collect_sources d source_reason_map = Inr scs \<Longrightarrow>
   \<exists>m u. generate_all_combinations g clk d t = Inr (m, u)"
  by (simp add: generate_all_combinations_def)

text \<open>
  C5: in \<open>check_demographic_matches\<close>, called with demographics supplied and a direct stage
  that returns, the full generator runs if and only if neither a direct pattern nor the
  special-case table matched. The generator reads the clock when it is called and nothing
  else in the method does, so the count of clock readings grows exactly when it ran. When
  the table matches, the method returns the union of the direct and the special reasons
  at once; when nothing matched, the result is the generator's entry for the PIN.
\<close>

theorem generator_fallback:
  assumes "d \<noteq> []" and "direct_matches v pin d source_reason_map = Inr ws"
  shows "\<exists>rs u. check_demographic_matches v clk pin d t = Inr (rs, u)
           \<and> (t < u \<longleftrightarrow> ws = [] \<and> check_direct_special_cases pin d = [])
           \<and> (check_direct_special_cases pin d \<noteq> [] \<longrightarrow>
                u = t \<and> rs = set ws \<union> set (check_direct_special_cases pin d))
           \<and> (ws = [] \<and> check_direct_special_cases pin d = [] \<longrightarrow>
                (\<exists>prs. generate_all_combinations (pattern_gen v) clk d t = Inr (prs, u)
                       \<and> rs = set (pr_get prs pin)))"
proof (cases "ws = [] \<and> check_direct_special_cases pin d = []")
  case True
  obtain scs where "collect_sources d source_reason_map = Inr scs"
    using direct_matches_collect [OF assms(2)] by blast
  then obtain prs u where g: "generate_all_combinations (pattern_gen v) clk d t = Inr (prs, u)"
    using generate_all_combinations_returns by blast
  then have "t < u" by (rule generate_all_combinations_clock)
  moreover have "check_demographic_matches v clk pin d t = Inr (set (pr_get prs pin), u)"
    using assms True g by (simp add: check_demographic_matches_def pr_get_def)
  ultimately show ?thesis using True g by simp
next
  case False
  then show ?thesis
    using assms by (auto simp: check_demographic_matches_def Let_def)
qed

theorem generator_fallback_witness:
  "(\<exists>rs. check_demographic_matches
           \<lparr>pin_length = 4, common_pins = {}, pattern_gen = \<lparr>gen_pin_length = 4,
              max_combinations = 500000, max_execution_time = 3\<rparr>\<rparr>
           (\<lambda>k. 0) ''0201'' [(''dob'', ''1998-02-01'')] 0 = Inr (rs, 0)) \<and>
   (\<exists>rs u. check_demographic_matches
           \<lparr>pin_length = 4, common_pins = {}, pattern_gen = \<lparr>gen_pin_length = 4,
              max_combinations = 500000, max_execution_time = 3\<rparr>\<rparr>
           (\<lambda>k. 0) ''8193'' [(''dob'', ''1998-02-01'')] 0 = Inr (rs, u) \<and> 0 < u)"
proof -
  let ?v = "\<lparr>pin_length = 4, common_pins = {}, pattern_gen = \<lparr>gen_pin_length = 4,
              max_combinations = 500000, max_execution_time = 3\<rparr>\<rparr>"
  let ?d = "[(''dob'', ''1998-02-01'')]"
  have d: "?d \<noteq> []" by simp
  have m1: "direct_matches ?v ''0201'' ?d source_reason_map = Inr [DEMOGRAPHIC_DOB_SELF]"
    by (simp add: validator_eval date_eval pattern_eval)
  have m2: "direct_matches ?v ''8193'' ?d source_reason_map = Inr []"
    by (simp add: validator_eval date_eval pattern_eval)
  have s: "check_direct_special_cases ''8193'' ?d = []"
    by (simp add: check_direct_special_cases_def)
  show ?thesis
    using generator_fallback [OF d m1, of "\<lambda>k. 0" 0] generator_fallback [OF d m2, of "\<lambda>k. 0" 0] s
    by auto
qed

text \<open>
  C6: with PIN length 6, whatever the table of common PINs and the generator's budget, the
  PIN \<open>402570\<close> with the date of birth \<open>2004-07-25\<close> is WEAK with DEMOGRAPHIC_DOB_SELF, and
  the PIN \<open>100589\<close> with the anniversary \<open>1998-05-01\<close> is WEAK with
  DEMOGRAPHIC_ANNIVERSARY; both come from the special-case table, after the direct stage
  found nothing.
\<close>

theorem special_case_literals:
  "(\<exists>r. validate_pin \<lparr>pin_length = 6, common_pins = cp, pattern_gen = g\<rparr> clk
           (PyStr ''402570'') (Some [(''dob'', ''2004-07-25'')]) t = Inr (r, t)
        \<and> strength r = WEAK \<and> DEMOGRAPHIC_DOB_SELF \<in> weakness_reasons r) \<and>
   direct_matches \<lparr>pin_length = 6, common_pins = cp, pattern_gen = g\<rparr> ''402570''
     [(''dob'', ''2004-07-25'')] source_reason_map = Inr [] \<and>
   check_direct_special_cases ''402570'' [(''dob'', ''2004-07-25'')] = [DEMOGRAPHIC_DOB_SELF] \<and>
   (\<exists>r. validate_pin \<lparr>pin_length = 6, common_pins = cp, pattern_gen = g\<rparr> clk
           (PyStr ''100589'') (Some [(''anniversary'', ''1998-05-01'')]) t = Inr (r, t)
        \<and> strength r = WEAK \<and> DEMOGRAPHIC_ANNIVERSARY \<in> weakness_reasons r) \<and>
   direct_matches \<lparr>pin_length = 6, common_pins = cp, pattern_gen = g\<rparr> ''100589''
     [(''anniversary'', ''1998-05-01'')] source_reason_map = Inr [] \<and>
   check_direct_special_cases ''100589'' [(''anniversary'', ''1998-05-01'')]
     = [DEMOGRAPHIC_ANNIVERSARY]"
  by (simp add: validator_eval date_eval pattern_eval)

text \<open>
  C7: for the date of birth \<open>1998-02-01\<close>, the PIN \<open>0201\<close> under length 4 and the PIN
  \<open>010298\<close> under length 6 both get the reason DEMOGRAPHIC_DOB_SELF, found by the direct
  stage that matches the PIN against the patterns of the single date.
\<close>

theorem single_date_coverage:
  "(\<exists>r. validate_pin \<lparr>pin_length = 4, common_pins = cp, pattern_gen = g\<rparr> clk
           (PyStr ''0201'') (Some [(''dob'', ''1998-02-01'')]) t = Inr (r, t)
        \<and> DEMOGRAPHIC_DOB_SELF \<in> weakness_reasons r) \<and>
   direct_matches \<lparr>pin_length = 4, common_pins = cp, pattern_gen = g\<rparr> ''0201''
     [(''dob'', ''1998-02-01'')] source_reason_map = Inr [DEMOGRAPHIC_DOB_SELF] \<and>
   (\<exists>r. validate_pin \<lparr>pin_length = 6, common_pins = cp', pattern_gen = g'\<rparr> clk'
           (PyStr ''010298'') (Some [(''dob'', ''1998-02-01'')]) t' = Inr (r, t')
        \<and> DEMOGRAPHIC_DOB_SELF \<in> weakness_reasons r) \<and>
   direct_matches \<lparr>pin_length = 6, common_pins = cp', pattern_gen = g'\<rparr> ''010298''
     [(''dob'', ''1998-02-01'')] source_reason_map = Inr [DEMOGRAPHIC_DOB_SELF]"
  by (simp add: validator_eval date_eval pattern_eval)

section \<open>Patterns across the three sources\<close>

lemma pr_get_dom: "r \<in> set (pr_get m k) \<Longrightarrow> k \<in> dom m"
  by (cases "m k") (auto simp: pr_get_def)

lemma pr_le_mem: "pr_le a b \<Longrightarrow> r \<in> set (pr_get a k) \<Longrightarrow> r \<in> set (pr_get b k)"
  unfolding pr_le_def by blast

lemmas generator_eval = generate_all_combinations_def source_reason_map_def demo_get_def

text \<open>
  C8: with PIN length 6 and the dates \<open>1990-07-25\<close>, \<open>1992-08-25\<close> and \<open>2015-06-01\<close> for the
  three sources, the PIN \<open>252501\<close> is WEAK with all three demographic reasons. No direct
  pattern and no special case matches, so the generator runs; its rule for the two birth
  days and the wedding day records the three reasons, and no later step removes them.
  This holds for every budget, time limit and clock.
\<close>

theorem cross_source_union:
  "\<exists>r u. validate_pin
      \<lparr>pin_length = 6, common_pins = cp,
        pattern_gen = \<lparr>gen_pin_length = 6, max_combinations = mc, max_execution_time = met\<rparr>\<rparr>
      clk (PyStr ''252501'')
      (Some [(''dob'', ''1990-07-25''), (''spouse_dob'', ''1992-08-25''),
             (''anniversary'', ''2015-06-01'')]) t = Inr (r, u)
    \<and> strength r = WEAK
    \<and> {DEMOGRAPHIC_DOB_SELF, DEMOGRAPHIC_DOB_SPOUSE, DEMOGRAPHIC_ANNIVERSARY}
        \<subseteq> weakness_reasons r"
proof -
  let ?g = "\<lparr>gen_pin_length = 6, max_combinations = mc, max_execution_time = met\<rparr>"
  let ?v = "\<lparr>pin_length = 6, common_pins = cp, pattern_gen = ?g\<rparr>"
  let ?d = "[(''dob'', ''1990-07-25''), (''spouse_dob'', ''1992-08-25''),
             (''anniversary'', ''2015-06-01'')]"
  have direct: "direct_matches ?v ''252501'' ?d source_reason_map = Inr []"
    by (simp add: validator_eval date_eval pattern_eval)
  have special: "check_direct_special_cases ''252501'' ?d = []"
    by (simp add: check_direct_special_cases_def)
  obtain scs where scs: "collect_sources ?d source_reason_map = Inr scs"
    and dob: "find_source scs DEMOGRAPHIC_DOB_SELF = Some \<lparr>source = ''dob'',
        components = projr (extract_date_components ''1990-07-25''),
        reason = DEMOGRAPHIC_DOB_SELF\<rparr>"
    and spouse: "find_source scs DEMOGRAPHIC_DOB_SPOUSE = Some \<lparr>source = ''spouse_dob'',
        components = projr (extract_date_components ''1992-08-25''),
        reason = DEMOGRAPHIC_DOB_SPOUSE\<rparr>"
    and wedding: "find_source scs DEMOGRAPHIC_ANNIVERSARY = Some \<lparr>source = ''anniversary'',
        components = projr (extract_date_components ''2015-06-01''),
        reason = DEMOGRAPHIC_ANNIVERSARY\<rparr>"
    and len: "length scs = 3"
    by (simp add: generator_eval date_eval find_source_def)
  have days: "comp_get (projr (extract_date_components ''1990-07-25'')) ''D'' = ''25''"
    "comp_get (projr (extract_date_components ''1992-08-25'')) ''D'' = ''25''"
    "comp_get (projr (extract_date_components ''2015-06-01'')) ''D'' = ''01''"
    by (simp_all add: date_eval comp_get_def)
  have rule2: "set (pr_get (cross_rule2 ?g
        \<lparr>source = ''dob'', components = projr (extract_date_components ''1990-07-25''),
          reason = DEMOGRAPHIC_DOB_SELF\<rparr>
        \<lparr>source = ''spouse_dob'', components = projr (extract_date_components ''1992-08-25''),
          reason = DEMOGRAPHIC_DOB_SPOUSE\<rparr>
        \<lparr>source = ''anniversary'', components = projr (extract_date_components ''2015-06-01''),
          reason = DEMOGRAPHIC_ANNIVERSARY\<rparr> m) ''252501'')
      \<supseteq> {DEMOGRAPHIC_DOB_SELF, DEMOGRAPHIC_DOB_SPOUSE, DEMOGRAPHIC_ANNIVERSARY}" for m
    by (simp add: cross_rule2_def days append_if_len_def pr_get_append_reasons)
  have cross: "{DEMOGRAPHIC_DOB_SELF, DEMOGRAPHIC_DOB_SPOUSE, DEMOGRAPHIC_ANNIVERSARY}
      \<subseteq> set (pr_get (generate_cross_source_patterns ?g scs m) ''252501'')" for m
  proof -
    let ?dob = "\<lparr>source = ''dob'', components = projr (extract_date_components ''1990-07-25''),
          reason = DEMOGRAPHIC_DOB_SELF\<rparr>"
    let ?sp = "\<lparr>source = ''spouse_dob'', components = projr (extract_date_components ''1992-08-25''),
          reason = DEMOGRAPHIC_DOB_SPOUSE\<rparr>"
    let ?wed = "\<lparr>source = ''anniversary'', components = projr (extract_date_components ''2015-06-01''),
          reason = DEMOGRAPHIC_ANNIVERSARY\<rparr>"
    have eq: "generate_cross_source_patterns ?g scs m =
        cross_rule4 ?g ?dob ?sp ?wed (cross_rule3 ?g ?dob ?sp ?wed
          (cross_rule2 ?g ?dob ?sp ?wed (cross_rule1 ?g ?sp ?wed m)))"
      by (simp add: generate_cross_source_patterns_def dob spouse wedding len)
    have "pr_le (cross_rule2 ?g ?dob ?sp ?wed (cross_rule1 ?g ?sp ?wed m))
                (generate_cross_source_patterns ?g scs m)"
      unfolding eq by (intro cross_rules_above pr_le_refl)
    then show ?thesis
      using rule2 [of "cross_rule1 ?g ?sp ?wed m"] unfolding pr_le_def by blast
  qed
  let ?gen = "generate_6 ?g clk (clk t) scs (Suc t)"
  have gen: "generate_all_combinations ?g clk ?d t = Inr (fst ?gen, snd ?gen)"
    using scs len by (auto simp: generate_all_combinations_def)
  obtain m where m: "fst ?gen = check_special_cases ?g scs
      (generate_day_repetition_patterns ?g scs (generate_cross_source_patterns ?g scs m))"
    by (simp add: generate_6_def case_prod_beta)
  have "pr_le (generate_cross_source_patterns ?g scs m) (fst ?gen)"
    unfolding m
    by (intro check_special_cases_above day_repetition_patterns_above pr_le_refl)
  then have final: "{DEMOGRAPHIC_DOB_SELF, DEMOGRAPHIC_DOB_SPOUSE, DEMOGRAPHIC_ANNIVERSARY}
      \<subseteq> set (pr_get (fst ?gen) ''252501'')"
    using cross [of m] unfolding pr_le_def by blast
  have "check_demographic_matches ?v clk ''252501'' ?d t
          = Inr (set (pr_get (fst ?gen) ''252501''), snd ?gen)"
    using direct special gen
    by (simp add: check_demographic_matches_def pr_get_def case_prod_beta)
  then show ?thesis
    using final
    by (auto simp: validate_pin_def validate_pin_format_def isdigit_def isdigit_char_def
        is_decimal_def get_weakness_reasons_def)
qed

section \<open>The keys of the generated dictionary\<close>

lemma keys_len_empty: "keys_len n Map.empty"
  by (simp add: keys_len_def)

lemma keys_len_append:
  "int (length pin) = n \<Longrightarrow> keys_len n m \<Longrightarrow> keys_len n (append_reasons pin rs m)"
  by (auto simp: keys_len_def append_reasons_def)

lemma keys_len_append_if:
  "keys_len (gen_pin_length g) m \<Longrightarrow> keys_len (gen_pin_length g) (append_if_len g pin rs m)"
  by (simp add: append_if_len_def keys_len_append)

lemma keys_len_store:
  "keys_len (gen_pin_length g) m \<Longrightarrow> keys_len (gen_pin_length g) (store_pin g rs parts m)"
  by (auto simp: keys_len_def store_pin_def add_unique_reasons_def)

lemma keys_len_if:
  "(c \<Longrightarrow> keys_len n x) \<Longrightarrow> (\<not> c \<Longrightarrow> keys_len n y) \<Longrightarrow> keys_len n (if c then x else y)"
  by simp

lemma keys_len_fold:
  assumes "\<And>x m. keys_len n m \<Longrightarrow> keys_len n (F x m)" and "keys_len n m"
  shows "keys_len n (fold F xs m)"
  using assms(2) by (induction xs arbitrary: m) (auto intro: assms(1))

lemmas keys_rules = keys_len_if keys_len_append_if

lemma pins_loop_keys:
  "keys_len (gen_pin_length g) m \<Longrightarrow>
   keys_len (gen_pin_length g) (fst (pins_loop g clk st rs xs m cc t))"
  by (induction xs arbitrary: m cc t) (auto intro: keys_len_store)

lemma generate_pins_keys:
  "keys_len (gen_pin_length g) m \<Longrightarrow>
   keys_len (gen_pin_length g) (fst (generate_pins_from_components g clk st css rs m cc t))"
  by (simp add: generate_pins_from_components_def pins_loop_keys)

lemma n_digit_loop_keys:
  "keys_len (gen_pin_length g) m \<Longrightarrow>
   keys_len (gen_pin_length g) (fst (n_digit_loop g clk st pls cc xs m t))"
proof (induction xs arbitrary: m t)
  case Nil
  then show ?case by simp
next
  case (Cons sc rest)
  let ?r = "generate_pins_from_components g clk st
              (map (\<lambda>(src, part_length). extract_components_by_length (components src) part_length)
                 (zip sc pls))
              (map reason sc) m cc (Suc t)"
  have "keys_len (gen_pin_length g) (fst ?r)"
    by (rule generate_pins_keys [OF Cons.prems])
  then have "keys_len (gen_pin_length g)
               (fst (n_digit_loop g clk st pls cc rest (fst ?r) (snd ?r)))"
    by (rule Cons.IH)
  then show ?case
    using Cons.prems by (simp add: case_prod_beta)
qed

lemma n_digit_combinations_keys:
  "keys_len (gen_pin_length g) m \<Longrightarrow>
   keys_len (gen_pin_length g) (fst (generate_n_digit_combinations g clk st scs pls m cc t))"
  by (simp add: generate_n_digit_combinations_def n_digit_loop_keys)

lemma day_repeat_keys:
  "int (2 * n) = N \<Longrightarrow> keys_len N m \<Longrightarrow> keys_len N (day_repeat n src m)"
  by (auto simp: day_repeat_def Let_def length_concat sum_list_replicate
      intro!: keys_len_append)

lemma special4_pair_keys:
  "keys_len (gen_pin_length g) m \<Longrightarrow> keys_len (gen_pin_length g) (special4_pair g p m)"
  unfolding special4_pair_def Let_def
  by (intro keys_rules) assumption+

lemma special6_pair_keys:
  "keys_len (gen_pin_length g) m \<Longrightarrow> keys_len (gen_pin_length g) (special6_pair g p m)"
  unfolding special6_pair_def Let_def
  by (intro keys_rules) assumption+

lemma full_rev_prefix_keys:
  "0 \<le> gen_pin_length g \<Longrightarrow> keys_len (gen_pin_length g) m \<Longrightarrow>
   keys_len (gen_pin_length g) (full_rev_prefix g src m)"
  by (auto simp: full_rev_prefix_def Let_def py_prefix_def intro!: keys_len_append)

lemma cross_rules_keys:
  "keys_len (gen_pin_length g) m \<Longrightarrow> keys_len (gen_pin_length g) (cross_rule1 g s w m)"
  "keys_len (gen_pin_length g) m \<Longrightarrow> keys_len (gen_pin_length g) (cross_rule2 g d s w m)"
  "keys_len (gen_pin_length g) m \<Longrightarrow> keys_len (gen_pin_length g) (cross_rule3 g d s w m)"
  "keys_len (gen_pin_length g) m \<Longrightarrow> keys_len (gen_pin_length g) (cross_rule4 g d s w m)"
  unfolding cross_rule1_def cross_rule2_def cross_rule3_def cross_rule4_def Let_def
  by (intro keys_rules; assumption)+

lemma cross_source_keys:
  "keys_len (gen_pin_length g) m \<Longrightarrow>
   keys_len (gen_pin_length g) (generate_cross_source_patterns g scs m)"
  by (auto simp: generate_cross_source_patterns_def split: option.splits
      intro!: cross_rules_keys)

lemma day_repetition_keys:
  "keys_len (gen_pin_length g) m \<Longrightarrow> keys_len (gen_pin_length g) (day_repetition g src m)"
proof -
  assume m: "keys_len (gen_pin_length g) m"
  let ?day = "comp_get (components src) ''D''"
  have three: "keys_len (gen_pin_length g) (append_reasons (?day @ ?day @ ?day) [reason src] m)"
    if "length ?day = 2" "gen_pin_length g = 6"
    using that m by (intro keys_len_append) simp_all
  have two: "keys_len (gen_pin_length g) (append_reasons (?day @ ?day) [reason src] m)"
    if "length ?day = 2" "gen_pin_length g = 4"
    using that m by (intro keys_len_append) simp_all
  show ?thesis
    unfolding day_repetition_def Let_def
    by (intro keys_rules three two m) simp_all
qed

lemma special_case_keys:
  "keys_len (gen_pin_length g) m \<Longrightarrow>
   keys_len (gen_pin_length g) (special_case g r dt pin src m)"
  by (simp add: special_case_def keys_len_append_if)

lemma generate_4_keys:
  assumes "gen_pin_length g = 4"
  shows "keys_len 4 (fst (generate_4 g clk st scs t))"
proof -
  have "keys_len (gen_pin_length g)
          (fst (generate_n_digit_combinations g clk st scs [2, 2] Map.empty 0 t))"
    by (intro n_digit_combinations_keys keys_len_empty)
  then have "keys_len (gen_pin_length g) (generate_special_patterns_4digit g scs
          (fst (generate_n_digit_combinations g clk st scs [2, 2] Map.empty 0 t)))"
    unfolding generate_special_patterns_4digit_def
    using assms by (intro keys_len_fold special4_pair_keys day_repeat_keys) simp_all
  then show ?thesis
    using assms by (simp add: generate_4_def case_prod_beta)
qed

lemma generate_6_keys:
  assumes "gen_pin_length g = 6"
  shows "keys_len 6 (fst (generate_6 g clk st scs t))"
proof -
  let ?a1 = "generate_n_digit_combinations g clk st scs [2, 2, 2] Map.empty 0 t"
  let ?a2 = "generate_n_digit_combinations g clk st scs [2, 4] (fst ?a1) 0 (snd ?a1)"
  let ?a3 = "generate_n_digit_combinations g clk st scs [4, 2] (fst ?a2) 0 (snd ?a2)"
  have "keys_len (gen_pin_length g) (fst ?a3)"
    by (intro n_digit_combinations_keys keys_len_empty)
  then have "keys_len (gen_pin_length g) (generate_special_patterns_6digit g scs (fst ?a3))"
    unfolding generate_special_patterns_6digit_def
    using assms
    by (intro keys_len_fold special6_pair_keys full_rev_prefix_keys day_repeat_keys) simp_all
  then have "keys_len (gen_pin_length g)
      (check_special_cases g scs (generate_day_repetition_patterns g scs
         (generate_cross_source_patterns g scs
            (generate_special_patterns_6digit g scs (fst ?a3)))))"
    unfolding check_special_cases_def generate_day_repetition_patterns_def
    by (intro keys_len_fold special_case_keys day_repetition_keys cross_source_keys)
  then show ?thesis
    using assms by (simp add: generate_6_def case_prod_beta)
qed

text \<open>The part of C2 that holds: every key of the generated dictionary has exactly
  \<open>pin_length\<close> characters.\<close>

lemma generated_keys_length:
  assumes "generate_all_combinations g clk d t = Inr (m, u)"
  shows "keys_len (gen_pin_length g) m"
proof -
  from assms obtain scs where scs: "collect_sources d source_reason_map = Inr scs"
    by (auto simp: generate_all_combinations_def split: sum.splits)
  show ?thesis
    using assms scs generate_4_keys [of g clk "clk t" scs "Suc t"]
      generate_6_keys [of g clk "clk t" scs "Suc t"]
    by (auto simp: generate_all_combinations_def keys_len_empty split: if_splits)
qed

lemma store_pin_stores:
  "int (length (concat parts)) = gen_pin_length g \<Longrightarrow>
   set rs \<subseteq> set (pr_get (store_pin g rs parts m) (concat parts))"
  by (simp add: store_pin_def set_pr_get_add_unique)

lemma fold_store_pin_mem:
  assumes "parts \<in> set xs" and "int (length (concat parts)) = gen_pin_length g"
  shows "set rs \<subseteq> set (pr_get (fold (store_pin g rs) xs m) (concat parts))"
  using assms(1)
proof (induction xs arbitrary: m)
  case Nil
  then show ?case by simp
next
  case (Cons x xs)
  show ?case
  proof (cases "parts = x")
    case True
    have "pr_le (store_pin g rs x m) (fold (store_pin g rs) xs (store_pin g rs x m))"
      by (intro fold_above store_pin_above pr_le_refl)
    then show ?thesis
      using store_pin_stores [OF assms(2), of rs m] True unfolding pr_le_def by auto
  next
    case False
    with Cons.prems have "parts \<in> set xs" by simp
    then show ?thesis using Cons.IH by simp
  qed
qed

lemma generate_pins_complete:
  assumes "\<forall>k. clk k - st \<le> max_execution_time g"
    and "list_all (\<lambda>cs. cs \<noteq> []) css" and "prod_list (map length css) \<le> 5000"
    and "cc + 5000 \<le> max_combinations g"
    and "parts \<in> set (product_lists css)"
    and "int (length (concat parts)) = gen_pin_length g"
  shows "set rs \<subseteq> set (pr_get (fst (generate_pins_from_components g clk st css rs m cc t))
                          (concat parts))"
proof -
  have "cc + int (length (product_lists css)) \<le> max_combinations g"
    using assms(3,4) by (simp add: length_product_lists_prod)
  then have "fst (pins_loop g clk st rs (product_lists css) m cc t)
               = fold (store_pin g rs) (product_lists css) m"
    by (rule pins_loop_full [OF assms(1)])
  then show ?thesis
    using assms(2,3) fold_store_pin_mem [OF assms(5,6)]
    by (simp add: generate_pins_from_components_def)
qed

text \<open>
  C2 says that every key of the generated dictionary consists of digits. The component
  \<open>RAW_DATE\<close> holds the input string with its dashes, \<open>extract_components_by_length\<close> slices
  every component, and so the fragments \<open>4-\<close> and \<open>07\<close> of \<open>2004-07-25\<close> are joined into the
  key \<open>4-07\<close> under the default budget and a clock that never expires.
\<close>

theorem raw_date_fragment_key:
  "\<exists>m u. generate_all_combinations
            \<lparr>gen_pin_length = 4, max_combinations = 500000, max_execution_time = 3\<rparr>
            (\<lambda>k. 0) [(''dob'', ''2004-07-25'')] 0 = Inr (m, u)
        \<and> ''4-07'' \<in> dom m \<and> \<not> isdigit ''4-07''"
proof -
  let ?g = "\<lparr>gen_pin_length = 4, max_combinations = 500000, max_execution_time = 3\<rparr>"
  let ?clk = "\<lambda>k::nat. 0::real"
  let ?src = "\<lparr>source = ''dob'', components = projr (extract_date_components ''2004-07-25''),
               reason = DEMOGRAPHIC_DOB_SELF\<rparr>"
  let ?A = "extract_components_by_length (projr (extract_date_components ''2004-07-25'')) 2"
  have scs: "collect_sources [(''dob'', ''2004-07-25'')] source_reason_map = Inr [?src]"
    by (simp add: generator_eval date_eval)
  have A: "''4-'' \<in> set ?A" "''07'' \<in> set ?A" "length ?A = 56"
    by (simp_all add: date_eval extract_components_by_length_def upt_rec)
  then have ne: "?A \<noteq> []" by auto
  have parts: "[''4-'', ''07''] \<in> set (product_lists [?A, ?A])"
    unfolding product_lists_set using A(1,2) by simp
  let ?r = "generate_pins_from_components ?g ?clk 0 [?A, ?A]
              [DEMOGRAPHIC_DOB_SELF, DEMOGRAPHIC_DOB_SELF] Map.empty 0 2"
  have "set [DEMOGRAPHIC_DOB_SELF, DEMOGRAPHIC_DOB_SELF]
          \<subseteq> set (pr_get (fst ?r) (concat [''4-'', ''07'']))"
    using ne A(3) by (intro generate_pins_complete parts) simp_all
  then have stored: "DEMOGRAPHIC_DOB_SELF \<in> set (pr_get (fst ?r) ''4-07'')"
    by simp
  have nd: "generate_n_digit_combinations ?g ?clk 0 [?src] [2, 2] Map.empty 0 1
              = (fst ?r, snd ?r)"
    by (simp add: generate_n_digit_combinations_def numeral_2_eq_2 case_prod_beta)
  let ?m = "generate_special_patterns_4digit ?g [?src] (fst ?r)"
  have gen: "generate_all_combinations ?g ?clk [(''dob'', ''2004-07-25'')] 0 = Inr (?m, snd ?r)"
    using scs nd by (simp add: generate_all_combinations_def generate_4_def case_prod_beta)
  have "pr_le (fst ?r) ?m"
    by (intro special_4digit_above pr_le_refl)
  then have "DEMOGRAPHIC_DOB_SELF \<in> set (pr_get ?m ''4-07'')"
    using stored by (rule pr_le_mem)
  then have "''4-07'' \<in> dom ?m" by (rule pr_get_dom)
  moreover have "\<not> isdigit ''4-07''"
    by (simp add: isdigit_def isdigit_char_def is_decimal_def)
  ultimately show ?thesis using gen by blast
qed

section \<open>The budget\<close>

lemma generate_all_combinations_raises:
  "generate_all_combinations g clk d t = Inl e \<longleftrightarrow> collect_sources d source_reason_map = Inl e"
  by (auto simp: generate_all_combinations_def split: sum.splits)

text \<open>
  C9, as far as it holds: whenever a run under the default budget of 500000 returns a
  dictionary and the time limit does not cut it, the run on the same demographics under
  any budget, time limit and clock returns a dictionary as well, and the reasons it
  records for a PIN are among those of the default run.
\<close>

theorem budget_degradation:
  assumes "generate_all_combinations
             \<lparr>gen_pin_length = n, max_combinations = 500000, max_execution_time = limit0\<rparr>
             clk0 d t0 = Inr (m0, u0)"
    and "\<forall>k. clk0 k - clk0 t0 \<le> limit0"
  shows "\<exists>m u. generate_all_combinations
                 \<lparr>gen_pin_length = n, max_combinations = b, max_execution_time = limit\<rparr>
                 clk d t = Inr (m, u)
             \<and> (\<forall>pin. set (pr_get m pin) \<subseteq> set (pr_get m0 pin))"
  using generate_all_combinations_le
    [of "\<lparr>gen_pin_length = n, max_combinations = b, max_execution_time = limit\<rparr>"
        "\<lparr>gen_pin_length = n, max_combinations = 500000, max_execution_time = limit0\<rparr>"
        clk0 t0 d m0 u0 clk t]
    assms
  by (simp add: pr_le_def)

theorem budget_degradation_witness:
  "\<exists>m u. generate_all_combinations
           \<lparr>gen_pin_length = 4, max_combinations = 1, max_execution_time = 3\<rparr>
           (\<lambda>k. real k) [(''dob'', ''1998-02-01'')] 0 = Inr (m, u)
       \<and> (\<forall>pin. set (pr_get m pin)
             \<subseteq> set (pr_get (fst (projr (generate_all_combinations
                   \<lparr>gen_pin_length = 4, max_combinations = 500000, max_execution_time = 3\<rparr>
                   (\<lambda>k. 0) [(''dob'', ''1998-02-01'')] 0))) pin))"
proof -
  let ?g0 = "\<lparr>gen_pin_length = 4, max_combinations = 500000, max_execution_time = 3\<rparr>"
  let ?d = "[(''dob'', ''1998-02-01'')]"
  let ?r = "projr (generate_all_combinations ?g0 (\<lambda>k. 0) ?d 0)"
  obtain scs where "collect_sources ?d source_reason_map = Inr scs"
    by (simp add: generator_eval date_eval)
  then have "generate_all_combinations ?g0 (\<lambda>k. 0) ?d 0 = Inr (fst ?r, snd ?r)"
    by (simp add: generate_all_combinations_def)
  moreover have "\<forall>k::nat. (\<lambda>k. 0) k - (\<lambda>k. 0) (0::nat) \<le> (3::real)"
    by simp
  ultimately show ?thesis
    by (rule budget_degradation)
qed

text \<open>
  Without the proviso on the time limit the comparison fails. Both runs below read the
  same clock, which jumps past the limit after its seventh reading. The run with budget
  2 leaves the first pair of sources after two candidates and reaches the pair of the
  two dates in time, where it records the spouse's reason for \<open>2508\<close>; the run with the
  default budget is still in the first pair when the limit expires.
\<close>

lemmas loop_eval = generate_4_def generate_n_digit_combinations_def
  generate_pins_from_components_def store_pin_def add_unique_reasons_def pr_get_def
  generate_special_patterns_4digit_def day_repeat_def special4_pair_def
  append_if_len_def append_reasons_def Let_def

theorem budget_degradation_counterexample:
  "(case generate_all_combinations
           \<lparr>gen_pin_length = 4, max_combinations = 2, max_execution_time = 3\<rparr>
           (\<lambda>k. if k \<le> 7 then 0 else 10)
           [(''dob'', ''1990-07-25''), (''spouse_dob'', ''1992-08-05'')] 0 of
      Inl e \<Rightarrow> False
    | Inr (m, u) \<Rightarrow> DEMOGRAPHIC_DOB_SPOUSE \<in> set (pr_get m ''2508'')) \<and>
   (case generate_all_combinations
           \<lparr>gen_pin_length = 4, max_combinations = 500000, max_execution_time = 3\<rparr>
           (\<lambda>k. if k \<le> 7 then 0 else 10)
           [(''dob'', ''1990-07-25''), (''spouse_dob'', ''1992-08-05'')] 0 of
      Inl e \<Rightarrow> False
    | Inr (m0, u0) \<Rightarrow> DEMOGRAPHIC_DOB_SPOUSE \<notin> set (pr_get m0 ''2508''))"
proof -
  define c1 where "c1 = projr (extract_date_components ''1990-07-25'')"
  define c2 where "c2 = projr (extract_date_components ''1992-08-05'')"
  have scs: "collect_sources [(''dob'', ''1990-07-25''), (''spouse_dob'', ''1992-08-05'')]
               source_reason_map
             = Inr [\<lparr>source = ''dob'', components = c1, reason = DEMOGRAPHIC_DOB_SELF\<rparr>,
                    \<lparr>source = ''spouse_dob'', components = c2, reason = DEMOGRAPHIC_DOB_SPOUSE\<rparr>]"
    by (simp add: generator_eval date_eval c1_def c2_def)
  obtain T1 where A1: "extract_components_by_length c1 2
        = ''25'' # ''25'' # ''07'' # ''90'' # ''19'' # ''90'' # ''52'' # T1"
      and T1: "length T1 = 49"
    by (simp add: c1_def date_eval extract_components_by_length_def upt_rec)
  obtain T2 where A2: "extract_components_by_length c2 2 = ''05'' # ''08'' # ''92'' # T2"
      and T2: "length T2 = 52"
    by (simp add: c2_def date_eval extract_components_by_length_def upt_rec)
  have keys: "has_key c1 ''D''" "has_key c1 ''M''" "has_key c1 ''YY''"
    "has_key c2 ''D''" "has_key c2 ''M''" "has_key c2 ''YY''"
    by (simp_all add: c1_def c2_def date_eval has_key_def)
  have vals: "comp_get c1 ''D'' = ''25''" "comp_get c1 ''M'' = ''07''"
    "comp_get c1 ''YY'' = ''90''" "comp_get c1 ''RAW_DATE'' = ''1990-07-25''"
    "comp_get c2 ''D'' = ''05''" "comp_get c2 ''M'' = ''08''" "comp_get c2 ''YY'' = ''92''"
    by (simp_all add: c1_def c2_def date_eval comp_get_def)
  have rep: "concat (replicate 2 s) = s @ s" for s :: string
    by (simp add: numeral_2_eq_2)
  show ?thesis
    by (simp add: generate_all_combinations_def scs loop_eval A1 A2 T1 T2 keys vals rep)
qed

end
